theory Spec2Isabelle
  imports Complex_Main
begin

section \<open>Go strings\<close>

text \<open>
  A Go \<^verbatim>\<open>string\<close> is a sequence of bytes: \<^verbatim>\<open>len\<close> counts bytes and
  \<^verbatim>\<open>s[i:j]\<close> slices by byte offsets. It is modelled as \<^typ>\<open>string\<close>
  (a list of 8-bit characters); \<^verbatim>\<open>len(s)\<close> is \<^term>\<open>length s\<close>,
  \<^verbatim>\<open>s[:n]\<close> is \<^term>\<open>take n s\<close> and \<^verbatim>\<open>s[n:]\<close> is
  \<^term>\<open>drop n s\<close> wherever the source has established \<^verbatim>\<open>n <= len(s)\<close>.
  Lengths, offsets and sizes are natural numbers: every size the source passes around
  is the length of a string or a non-negative fraction of the character budget.
\<close>

abbreviation newline :: char where
  "newline \<equiv> CHR 0x0A"

text \<open>\<^verbatim>\<open>strings.HasPrefix\<close> and \<^verbatim>\<open>strings.HasSuffix\<close>.\<close>

definition HasPrefix :: "string \<Rightarrow> string \<Rightarrow> bool" where
  "HasPrefix s p = (length p \<le> length s \<and> take (length p) s = p)"

definition HasSuffix :: "string \<Rightarrow> string \<Rightarrow> bool" where
  "HasSuffix s p = (length p \<le> length s \<and> drop (length s - length p) s = p)"

text \<open>
  \<^verbatim>\<open>strings.Index(s, sub)\<close>: the byte offset of the first occurrence of
  \<^verbatim>\<open>sub\<close> in \<^verbatim>\<open>s\<close>; Go's \<^verbatim>\<open>-1\<close> is \<^term>\<open>None\<close>.
\<close>

fun Index :: "string \<Rightarrow> string \<Rightarrow> nat option" where
  "Index [] sub = (if sub = [] then Some 0 else None)"
| "Index (c # s) sub =
     (if HasPrefix (c # s) sub then Some 0 else map_option Suc (Index s sub))"

text \<open>
  \<^verbatim>\<open>strings.LastIndex(s, sub)\<close>: the byte offset of the last occurrence
  (\<^verbatim>\<open>len(s)\<close> for the empty \<^verbatim>\<open>sub\<close>).
\<close>

fun LastIndex :: "string \<Rightarrow> string \<Rightarrow> nat option" where
  "LastIndex [] sub = (if sub = [] then Some 0 else None)"
| "LastIndex (c # s) sub =
     (case LastIndex s sub of
        Some i \<Rightarrow> Some (Suc i)
      | None \<Rightarrow> if HasPrefix (c # s) sub then Some 0 else None)"

definition Contains :: "string \<Rightarrow> string \<Rightarrow> bool" where
  "Contains s sub = (Index s sub \<noteq> None)"

definition TrimSuffix :: "string \<Rightarrow> string \<Rightarrow> string" where
  "TrimSuffix s suffix =
     (if HasSuffix s suffix then take (length s - length suffix) s else s)"

section \<open>Splitting a context into chunks\<close>

text \<open>
  The break point chosen inside the loop of \<^verbatim>\<open>splitContextIntoChunks\<close> for one
  chunk \<^verbatim>\<open>remaining[:maxChunkSize]\<close>: the end of the last blank line in the last
  20% of the chunk, else of the last line break there, else of the last space, else the
  chunk size itself. \<^verbatim>\<open>int(float64(maxChunkSize) * 0.8)\<close> is
  \<open>4 * maxChunkSize div 5\<close>: the double nearest to 0.8 lies above 0.8 by less than
  \<open>2\<^sup>-\<^sup>5\<^sup>4\<close>, so the product is never pushed across an integer for sizes below
  \<open>2\<^sup>5\<^sup>0\<close>.
\<close>

definition findBreakPoint :: "string \<Rightarrow> nat \<Rightarrow> nat" where
  "findBreakPoint chunk maxChunkSize =
     (let searchStart = (4 * maxChunkSize) div 5 in
      case LastIndex (drop searchStart chunk) [newline, newline] of
        Some idx \<Rightarrow> searchStart + idx + 2
      | None \<Rightarrow>
          (case LastIndex (drop searchStart chunk) [newline] of
             Some idx \<Rightarrow> searchStart + idx + 1
           | None \<Rightarrow>
               (case LastIndex (drop searchStart chunk) '' '' of
                  Some idx \<Rightarrow> searchStart + idx + 1
                | None \<Rightarrow> maxChunkSize)))"

text \<open>
  The \<^verbatim>\<open>for len(remaining) > 0\<close> loop. Nothing in the source bounds the number of
  iterations, so the loop is a partial function: \<^term>\<open>None\<close> is "does not return".
\<close>

partial_function (option) splitLoop :: "string list \<Rightarrow> string \<Rightarrow> nat \<Rightarrow> string list option" where
  "splitLoop chunks remaining maxChunkSize =
     (if length remaining > 0 then
        (if length remaining \<le> maxChunkSize then Some (chunks @ [remaining])
         else
           (let chunk = take maxChunkSize remaining;
                breakPoint = findBreakPoint chunk maxChunkSize
            in splitLoop (chunks @ [take breakPoint remaining])
                 (drop breakPoint remaining) maxChunkSize))
      else Some chunks)"

declare splitLoop.simps [code]

definition splitContextIntoChunks :: "string \<Rightarrow> nat \<Rightarrow> string list option" where
  "splitContextIntoChunks text maxChunkSize =
     (if length text \<le> maxChunkSize then Some [text]
      else splitLoop [] text maxChunkSize)"

section \<open>More of the Go string library\<close>

text \<open>
  \<^verbatim>\<open>utf8.DecodeRuneInString\<close>, as far as the width it reports: the number of bytes
  the first rune of a non-empty string occupies. A byte that does not start a
  well-formed UTF-8 sequence is a rune of width 1.
\<close>

definition continuationByte :: "char \<Rightarrow> bool" where
  "continuationByte c = (0x80 \<le> (of_char c :: nat) \<and> (of_char c :: nat) \<le> 0xBF)"

definition runeWidth :: "string \<Rightarrow> nat" where
  "runeWidth s =
     (case s of
        [] \<Rightarrow> 0
      | b0 # _ \<Rightarrow>
          (let x = (of_char b0 :: nat) in
           if x < 0xC2 \<or> 0xF4 < x then 1
           else
             (let sz = (if x < 0xE0 then 2 else if x < 0xF0 then 3 else 4 :: nat);
                  lo = (if x = 0xE0 then 0xA0 else if x = 0xF0 then 0x90 else 0x80 :: nat);
                  hi = (if x = 0xED then 0x9F else if x = 0xF4 then 0x8F else 0xBF :: nat)
              in if length s < sz then 1
                 else if (of_char (s ! 1) :: nat) < lo \<or> hi < (of_char (s ! 1) :: nat) then 1
                 else if sz \<le> 2 then 2
                 else if \<not> continuationByte (s ! 2) then 1
                 else if sz \<le> 3 then 3
                 else if \<not> continuationByte (s ! 3) then 1
                 else 4)))"

text \<open>
  \<^verbatim>\<open>strings.ReplaceAll(s, old, new)\<close>. For a non-empty \<^verbatim>\<open>old\<close> the
  non-overlapping occurrences are replaced from left to right; for the empty
  \<^verbatim>\<open>old\<close> the replacement is inserted in front of the string and after every rune.
  The recursions carry the length of the rest as fuel, which always suffices: each step
  consumes at least one byte.
\<close>

fun replaceOccurrences :: "nat \<Rightarrow> string \<Rightarrow> string \<Rightarrow> string \<Rightarrow> string" where
  "replaceOccurrences 0 s old new = s"
| "replaceOccurrences (Suc fuel) s old new =
     (case Index s old of
        None \<Rightarrow> s
      | Some j \<Rightarrow> take j s @ new @ replaceOccurrences fuel (drop (j + length old) s) old new)"

fun insertAfterRunes :: "nat \<Rightarrow> string \<Rightarrow> string \<Rightarrow> string" where
  "insertAfterRunes 0 s new = s"
| "insertAfterRunes (Suc fuel) s new =
     (if s = [] then []
      else take (runeWidth s) s @ new @ insertAfterRunes fuel (drop (runeWidth s) s) new)"

definition ReplaceAll :: "string \<Rightarrow> string \<Rightarrow> string \<Rightarrow> string" where
  "ReplaceAll s old new =
     (if old = new then s
      else if old = [] then new @ insertAfterRunes (length s) s new
      else replaceOccurrences (length s) s old new)"

text \<open>
  \<^verbatim>\<open>strings.ToLower\<close>. A string of ASCII bytes only is lowered byte by byte.
  Any other string goes through \<^verbatim>\<open>strings.Map(unicode.ToLower, s)\<close>, which depends
  on the Unicode tables of the Go runtime: that mapping is the parameter
  \<open>unicodeLower\<close>.
\<close>

definition asciiLower :: "char \<Rightarrow> char" where
  "asciiLower c =
     (if (65::nat) \<le> of_char c \<and> of_char c \<le> (90::nat)
      then char_of (of_char c + (32::nat)) else c)"

definition ToLower :: "(string \<Rightarrow> string) \<Rightarrow> string \<Rightarrow> string" where
  "ToLower unicodeLower s =
     (if list_all (\<lambda>c. (of_char c :: nat) < 0x80) s then map asciiLower s
      else unicodeLower s)"

section \<open>Query expansion\<close>

record QueryExpansion =
  Synonyms :: "(string \<times> string list) list"
  Platforms :: "string list"

text \<open>
  A Go \<^verbatim>\<open>map[string]bool\<close> that only ever stores \<^verbatim>\<open>true\<close> is modelled by the
  list of its keys, without repetition, in the order of first insertion;
  \<^verbatim>\<open>m[k] = true\<close> is \<open>mapSet\<close>. The \<^verbatim>\<open>Synonyms\<close> map of the expansion is an
  association list.
\<close>

definition mapSet :: "string \<Rightarrow> string list \<Rightarrow> string list" where
  "mapSet k m = (if k \<in> set m then m else m @ [k])"

text \<open>
  Go leaves the order in which \<^verbatim>\<open>range\<close> visits the keys of a map unspecified.
  The order is a parameter of the model: \<open>rank\<close> gives every key its place, and every
  permutation of the keys is the order of some \<open>rank\<close>.
\<close>

definition rangeKeys :: "(string \<Rightarrow> nat) \<Rightarrow> string list \<Rightarrow> string list" where
  "rangeKeys rank m = sort_key rank m"

text \<open>Step 1: the base queries of at most 60 bytes.\<close>

definition addBaseQueries :: "string list \<Rightarrow> string list \<Rightarrow> string list" where
  "addBaseQueries baseQueries expanded =
     fold (\<lambda>q m. if length q \<le> 60 then mapSet q m else m) baseQueries expanded"

text \<open>Step 2: the base queries of at most 40 bytes behind every non-empty platform prefix.\<close>

definition addPlatformQueries :: "string list \<Rightarrow> string list \<Rightarrow> string list \<Rightarrow> string list" where
  "addPlatformQueries baseQueries platforms expanded =
     fold (\<lambda>q m.
        if length q > 40 then m
        else fold (\<lambda>platform m'.
               if platform \<noteq> [] then mapSet (platform @ '' '' @ q) m' else m')
             platforms m)
       baseQueries expanded"

text \<open>Step 3: the synonym variations of the base queries of at most 50 bytes.\<close>

definition synonymVariants :: "(string \<Rightarrow> string) \<Rightarrow> string \<Rightarrow> string \<Rightarrow> string list \<Rightarrow> string list \<Rightarrow> string list" where
  "synonymVariants unicodeLower lowerQ wordLower syns synonymQueries =
     fold (\<lambda>syn m.
        if ToLower unicodeLower syn \<noteq> wordLower then
          (let newQuery = ReplaceAll lowerQ wordLower (ToLower unicodeLower syn) in
           if length newQuery \<le> 60 then mapSet newQuery m else m)
        else m)
       syns synonymQueries"

definition addSynonymQueries :: "(string \<Rightarrow> string) \<Rightarrow> string list \<Rightarrow> (string \<times> string list) list \<Rightarrow> string list \<Rightarrow> string list" where
  "addSynonymQueries unicodeLower baseQueries synonyms synonymQueries =
     fold (\<lambda>q m.
        if length q > 50 then m
        else
          (let lowerQ = ToLower unicodeLower q in
           fold (\<lambda>(word, syns) m'.
                  (let wordLower = ToLower unicodeLower word in
                   if Contains lowerQ wordLower
                   then synonymVariants unicodeLower lowerQ wordLower syns m'
                   else m'))
                synonyms m))
       baseQueries synonymQueries"

text \<open>The map \<^verbatim>\<open>expanded\<close> as it stands before the cap of step 4.\<close>

definition expandedMap :: "(string \<Rightarrow> string) \<Rightarrow> string list \<Rightarrow> QueryExpansion \<Rightarrow> string list" where
  "expandedMap unicodeLower baseQueries expansion =
     (let expanded = addBaseQueries baseQueries [];
          expanded = addPlatformQueries baseQueries (Platforms expansion) expanded;
          synonymQueries = addSynonymQueries unicodeLower baseQueries (Synonyms expansion) []
      in fold mapSet synonymQueries expanded)"

text \<open>
  Step 4 appends the keys in the order \<^verbatim>\<open>range\<close> yields them and leaves the loop
  once 150 have been appended.
\<close>

definition maxQueries :: nat where
  "maxQueries = 150"

definition expandQueriesWithLLM :: "(string \<Rightarrow> string) \<Rightarrow> (string \<Rightarrow> nat) \<Rightarrow> string list \<Rightarrow> QueryExpansion \<Rightarrow> string list" where
  "expandQueriesWithLLM unicodeLower rank baseQueries expansion =
     take maxQueries (rangeKeys rank (expandedMap unicodeLower baseQueries expansion))"

section \<open>Trimming and formatting\<close>

text \<open>
  \<^verbatim>\<open>strings.TrimSpace\<close> removes the leading and the trailing white space, as
  \<^verbatim>\<open>unicode.IsSpace\<close> defines it: the six ASCII characters and the UTF-8 encodings
  of U+0085, U+00A0, U+1680, U+2000 to U+200A, U+2028, U+2029, U+202F, U+205F and
  U+3000.
\<close>

definition asciiSpace :: "char \<Rightarrow> bool" where
  "asciiSpace c = (c \<in> set [CHR 0x09, CHR 0x0A, CHR 0x0B, CHR 0x0C, CHR 0x0D, CHR 0x20])"

definition unicodeSpaces :: "string list" where
  "unicodeSpaces =
     [[CHR 0xC2, CHR 0x85], [CHR 0xC2, CHR 0xA0], [CHR 0xE1, CHR 0x9A, CHR 0x80],
      [CHR 0xE2, CHR 0x80, CHR 0x80], [CHR 0xE2, CHR 0x80, CHR 0x81],
      [CHR 0xE2, CHR 0x80, CHR 0x82], [CHR 0xE2, CHR 0x80, CHR 0x83],
      [CHR 0xE2, CHR 0x80, CHR 0x84], [CHR 0xE2, CHR 0x80, CHR 0x85],
      [CHR 0xE2, CHR 0x80, CHR 0x86], [CHR 0xE2, CHR 0x80, CHR 0x87],
      [CHR 0xE2, CHR 0x80, CHR 0x88], [CHR 0xE2, CHR 0x80, CHR 0x89],
      [CHR 0xE2, CHR 0x80, CHR 0x8A], [CHR 0xE2, CHR 0x80, CHR 0xA8],
      [CHR 0xE2, CHR 0x80, CHR 0xA9], [CHR 0xE2, CHR 0x80, CHR 0xAF],
      [CHR 0xE2, CHR 0x81, CHR 0x9F], [CHR 0xE3, CHR 0x80, CHR 0x80]]"

definition leadingSpaceWidth :: "string \<Rightarrow> nat" where
  "leadingSpaceWidth s =
     (case s of
        [] \<Rightarrow> 0
      | c # _ \<Rightarrow>
          if asciiSpace c then 1
          else (case filter (HasPrefix s) unicodeSpaces of [] \<Rightarrow> 0 | e # _ \<Rightarrow> length e))"

definition trailingSpaceWidth :: "string \<Rightarrow> nat" where
  "trailingSpaceWidth s =
     (if s = [] then 0
      else if asciiSpace (last s) then 1
      else (case filter (HasSuffix s) unicodeSpaces of [] \<Rightarrow> 0 | e # _ \<Rightarrow> length e))"

function TrimLeftSpace :: "string \<Rightarrow> string" where
  "TrimLeftSpace s =
     (if leadingSpaceWidth s = 0 then s else TrimLeftSpace (drop (leadingSpaceWidth s) s))"
  by pat_completeness auto
termination
  by (relation "measure length") (auto simp: leadingSpaceWidth_def split: list.splits)

declare TrimLeftSpace.simps [simp del]

function TrimRightSpace :: "string \<Rightarrow> string" where
  "TrimRightSpace s =
     (if trailingSpaceWidth s = 0 then s
      else TrimRightSpace (take (length s - trailingSpaceWidth s) s))"
  by pat_completeness auto
termination
  by (relation "measure length") (auto simp: trailingSpaceWidth_def split: if_splits)

declare TrimRightSpace.simps [simp del]

definition TrimSpace :: "string \<Rightarrow> string" where
  "TrimSpace s = TrimRightSpace (TrimLeftSpace s)"

text \<open>\<^verbatim>\<open>strings.Join\<close>.\<close>

fun Join :: "string list \<Rightarrow> string \<Rightarrow> string" where
  "Join [] sep = []"
| "Join [x] sep = x"
| "Join (x # y # ys) sep = x @ sep @ Join (y # ys) sep"

text \<open>The verb \<^verbatim>\<open>%d\<close> of \<^verbatim>\<open>fmt.Sprintf\<close>.\<close>

fun showNat :: "nat \<Rightarrow> string" where
  "showNat n =
     (if n < 10 then [char_of (48 + n)]
      else showNat (n div 10) @ [char_of (48 + n mod 10)])"

declare showNat.simps [simp del]

definition showInt :: "int \<Rightarrow> string" where
  "showInt i = (if i < 0 then ''-'' @ showNat (nat (- i)) else showNat (nat i))"

text \<open>
  \<^verbatim>\<open>stripThinkTags\<close>: when the text has both an opening and a closing tag, everything
  up to the end of the first closing tag is dropped; the rest is trimmed.
\<close>

definition stripThinkTags :: "string \<Rightarrow> string" where
  "stripThinkTags s =
     TrimSpace
       (case Index s ''<think>'' of
          Some start \<Rightarrow>
            (case Index s ''</think>'' of Some end \<Rightarrow> drop (end + 8) s | None \<Rightarrow> s)
        | None \<Rightarrow> s)"

section \<open>The agent and its collaborators\<close>

text \<open>A Go \<^verbatim>\<open>error\<close> is modelled by its message.\<close>

type_synonym error = string

record Message =
  Role :: string
  Content :: string

record Result =
  Title :: string
  URL :: string
  Content :: string
  FullContent :: string

record Source =
  Title :: string
  URL :: string

record ResearchResult =
  Report :: string
  Sources :: "Source list"

record Config =
  MaxLoops :: int
  ParallelQuery :: int
  DeepMode :: bool
  ResultLinks :: bool
  SimpleMode :: bool
  MinResults :: int
  DelayMs :: int
  MaxPages :: int
  ContextLength :: int

text \<open>
  \<^verbatim>\<open>maxContextChars\<close>: 3.5 characters per token, or the default of
  \<open>32768 * 3\<close>. The product with 3.5 is exact in double precision, so
  \<^verbatim>\<open>int(float64(n) * 3.5)\<close> is \<open>7 * n div 2\<close>.
\<close>

definition maxContextChars :: "Config \<Rightarrow> nat" where
  "maxContextChars c =
     (if ContextLength c \<le> 0 then 32768 * 3 else nat ((7 * ContextLength c) div 2))"

text \<open>
  The language model and the search provider are outside the program. What they answer
  may depend on everything exchanged with them so far: each capability is a function of
  the list of earlier exchanges (the \<open>history\<close>) and of the request, and every call
  appends its exchange to the history. Pauses (\<^verbatim>\<open>time.Sleep\<close>) and the progress
  lines printed to the terminal are not modelled.
\<close>

datatype event =
    ChatEvent "Message list" "error + string"
  | SearchEvent string "error + Result list"
  | SearchWithPageEvent string int "error + Result list"
  | FetchPageContentEvent string int "error + string"

text \<open>
  \<open>canPaginate\<close> is the outcome of the type assertion
  \<^verbatim>\<open>a.searcher.(paginatedSearcher)\<close>; \<open>FetchPageContent\<close> is present when the
  searcher is a \<^verbatim>\<open>search.ContentFetcher\<close>.
\<close>

record Searcher =
  Search :: "event list \<Rightarrow> string \<Rightarrow> error + Result list"
  canPaginate :: bool
  SearchWithPage :: "event list \<Rightarrow> string \<Rightarrow> int \<Rightarrow> error + Result list"
  FetchPageContent :: "(event list \<Rightarrow> string \<Rightarrow> int \<Rightarrow> error + string) option"

record DeepResearcher =
  llmClient :: "event list \<Rightarrow> Message list \<Rightarrow> error + string"
  searcher :: Searcher
  config :: Config
  sources :: "Source list"
  seenURLs :: "string set"
  history :: "event list"

definition Chat :: "DeepResearcher \<Rightarrow> Message list \<Rightarrow> (error + string) \<times> DeepResearcher" where
  "Chat a messages =
     (let r = llmClient a (history a) messages
      in (r, a\<lparr>history := history a @ [ChatEvent messages r]\<rparr>))"

section \<open>Context compression\<close>

text \<open>
  A target ratio is a rational number. \<^verbatim>\<open>int(float64(len(context)) * targetRatio)\<close>
  truncates towards zero; for the ratios the program uses (\<open>1/2\<close>, \<open>1/4\<close> and the
  double nearest to \<open>1/6\<close>) and lengths below \<open>2\<^sup>5\<^sup>0\<close> the floating-point product
  truncates to the same integer as the exact one.
\<close>

definition truncateToInt :: "rat \<Rightarrow> int" where
  "truncateToInt x = (if 0 \<le> x then \<lfloor>x\<rfloor> else \<lceil>x\<rceil>)"

definition compressMessages :: "string \<Rightarrow> rat \<Rightarrow> Message list" where
  "compressMessages context targetRatio =
     (let targetChars = truncateToInt (of_nat (length context) * targetRatio);
          prompt = ''Compress this research context to ~'' @ showInt targetChars
            @ '' characters. PRESERVE: URLs, prices, names, numbers, dates, specific facts. REMOVE: redundancy, verbose descriptions. Output ONLY compressed text:''
            @ [newline, newline] @ context
      in [\<lparr>Role = ''system'', Content = ''Compress text. Output only the result.''\<rparr>,
          \<lparr>Role = ''user'', Content = prompt\<rparr>])"

text \<open>
  \<^verbatim>\<open>compressContextDirect\<close> returns a text and an error, both of them in every case:
  the result is a pair of the text and \<^term>\<open>None\<close> for \<^verbatim>\<open>nil\<close> or
  \<^term>\<open>Some err\<close>.
\<close>

definition compressContextDirect :: "DeepResearcher \<Rightarrow> string \<Rightarrow> rat \<Rightarrow> (string \<times> error option) \<times> DeepResearcher" where
  "compressContextDirect a context targetRatio =
     (let (resp, a') = Chat a (compressMessages context targetRatio) in
      case resp of
        Inl err \<Rightarrow> ((context, Some (''compression failed: '' @ err)), a')
      | Inr resp \<Rightarrow>
          (let compressed = stripThinkTags resp;
               compressed = TrimSpace compressed
           in if length compressed < 200
              then ((context,
                     Some (''compression produced too small output (''
                           @ showNat (length compressed) @ '' chars)'')), a')
              else ((compressed, None), a')))"

text \<open>The loop of \<^verbatim>\<open>compressContextChunked\<close> over the chunks.\<close>

fun compressChunks :: "DeepResearcher \<Rightarrow> nat \<Rightarrow> rat \<Rightarrow> string list \<Rightarrow> string list \<Rightarrow> string list \<times> DeepResearcher" where
  "compressChunks a chunkSize targetRatio [] compressedParts = (compressedParts, a)"
| "compressChunks a chunkSize targetRatio (chunk # chunks) compressedParts =
     (let ((compressed, err), a') = compressContextDirect a chunk targetRatio in
      case err of
        Some _ \<Rightarrow>
          (let truncated =
                 (if length chunk > chunkSize div 4
                  then take (chunkSize div 4) chunk
                         @ [newline] @ ''[...truncated...]'' @ [newline]
                  else chunk)
           in compressChunks a' chunkSize targetRatio chunks (compressedParts @ [truncated]))
      | None \<Rightarrow>
          compressChunks a' chunkSize targetRatio chunks (compressedParts @ [compressed]))"

text \<open>
  \<^verbatim>\<open>compressContext\<close> and \<^verbatim>\<open>compressContextChunked\<close> call each other, and nothing
  bounds the depth: the combined result is compressed again as long as it exceeds 60% of
  the budget. The recursion is a partial function, with the body of
  \<^verbatim>\<open>compressContextChunked\<close> in its second branch.
  \<^verbatim>\<open>int(float64(maxChars) * 0.6)\<close> is \<open>3 * maxChars div 5\<close> and
  \<^verbatim>\<open>int(float64(maxChars) * 0.5)\<close> is \<open>maxChars div 2\<close>.
\<close>

definition chunkSeparator :: string where
  "chunkSeparator = [newline, newline] @ ''---'' @ [newline, newline]"

partial_function (option) compressContext :: "DeepResearcher \<Rightarrow> string \<Rightarrow> rat \<Rightarrow> ((string \<times> error option) \<times> DeepResearcher) option" where
  "compressContext a context targetRatio =
     (let maxChars = maxContextChars (config a);
          maxInputChars = (3 * maxChars) div 5
      in if length context \<le> maxInputChars
         then Some (compressContextDirect a context targetRatio)
         else
           (let chunkSize = (if maxChars div 2 < 2000 then 2000 else maxChars div 2) in
            case splitContextIntoChunks context chunkSize of
              None \<Rightarrow> None
            | Some chunks \<Rightarrow>
                (let (compressedParts, a') = compressChunks a chunkSize targetRatio chunks [];
                     result = Join compressedParts chunkSeparator;
                     maxTarget = (3 * maxChars) div 5
                 in if length result > maxTarget
                    then compressContext a' result targetRatio
                    else Some ((result, None), a'))))"

declare compressContext.simps [code]

definition compressContextChunked :: "DeepResearcher \<Rightarrow> string \<Rightarrow> rat \<Rightarrow> ((string \<times> error option) \<times> DeepResearcher) option" where
  "compressContextChunked a context targetRatio =
     (let maxChars = maxContextChars (config a);
          chunkSize = (if maxChars div 2 < 2000 then 2000 else maxChars div 2)
      in case splitContextIntoChunks context chunkSize of
           None \<Rightarrow> None
         | Some chunks \<Rightarrow>
             (let (compressedParts, a') = compressChunks a chunkSize targetRatio chunks [];
                  result = Join compressedParts chunkSeparator;
                  maxTarget = (3 * maxChars) div 5
              in if length result > maxTarget
                 then compressContext a' result targetRatio
                 else Some ((result, None), a')))"

text \<open>\<^verbatim>\<open>NewDeepResearcher\<close>, with the history of a world nothing has been asked of yet.\<close>

definition NewDeepResearcher :: "(event list \<Rightarrow> Message list \<Rightarrow> error + string) \<Rightarrow> Searcher \<Rightarrow> Config \<Rightarrow> DeepResearcher" where
  "NewDeepResearcher l s cfg =
     \<lparr>llmClient = l, searcher = s, config = cfg, sources = [], seenURLs = {}, history = []\<rparr>"

text \<open>
  The mock search engine of \<^verbatim>\<open>pkg/search/mock.go\<close>, which answers every page of
  every query with one result, and the configuration the command line builds when no
  flag is given.
\<close>

definition MockClient :: Searcher where
  "MockClient =
     \<lparr>Search = (\<lambda>h query.
          Inr [\<lparr>Result.Title = ''Mock Result for '' @ query @ '' (page 1)'',
                 URL = ''http://example.com/page1'',
                 Content = ''This is some mock content found for the query '' @ [CHR 0x27]
                   @ query @ [CHR 0x27] @ '' on page 1. It contains some facts.'',
                 FullContent = []\<rparr>]),
      canPaginate = True,
      SearchWithPage = (\<lambda>h query page.
          Inr [\<lparr>Result.Title = ''Mock Result for '' @ query @ '' (page '' @ showInt page @ '')'',
                 URL = ''http://example.com/page'' @ showInt page,
                 Content = ''This is some mock content found for the query '' @ [CHR 0x27]
                   @ query @ [CHR 0x27] @ '' on page '' @ showInt page
                   @ ''. It contains some facts.'',
                 FullContent = []\<rparr>]),
      FetchPageContent = None\<rparr>"

definition defaultConfig :: Config where
  "defaultConfig =
     \<lparr>MaxLoops = 5, ParallelQuery = 5, DeepMode = False, ResultLinks = False,
      SimpleMode = False, MinResults = 20, DelayMs = 500, MaxPages = 0,
      ContextLength = 32768\<rparr>"

section \<open>URL normalization\<close>

text \<open>
  \<^verbatim>\<open>normalizeURL\<close> is written against Go's \<^verbatim>\<open>net/url\<close>, which is not part of the
  repository. The package is a parameter of the model: a record of the four operations
  the function uses. \<^verbatim>\<open>url.Values\<close>, a map from keys to lists of values, is an
  association list with one entry per key.
\<close>

record URL =
  Scheme :: string
  Opaque :: string
  User :: "(string \<times> string option) option"
  Host :: string
  Path :: string
  RawPath :: string
  OmitHost :: bool
  ForceQuery :: bool
  RawQuery :: string
  Fragment :: string
  RawFragment :: string

type_synonym Values = "(string \<times> string list) list"

record URLPackage =
  Parse :: "string \<Rightarrow> error + URL"
  Query :: "URL \<Rightarrow> Values"
  Encode :: "Values \<Rightarrow> string"
  String :: "URL \<Rightarrow> string"

text \<open>\<^verbatim>\<open>q.Del(param)\<close>.\<close>

definition Del :: "string \<Rightarrow> Values \<Rightarrow> Values" where
  "Del key v = filter (\<lambda>(k, vs). k \<noteq> key) v"

definition trackingParams :: "string list" where
  "trackingParams =
     [''utm_source'', ''utm_medium'', ''utm_campaign'', ''utm_content'', ''utm_term'',
      ''fbclid'', ''gclid'', ''ref'', ''source'']"

definition normalizeURL :: "URLPackage \<Rightarrow> string \<Rightarrow> string" where
  "normalizeURL url rawURL =
     (case Parse url rawURL of
        Inl err \<Rightarrow> TrimSuffix rawURL ''/''
      | Inr u \<Rightarrow>
          (let q = Query url u;
               q = fold Del trackingParams q;
               u = u\<lparr>RawQuery := Encode url q\<rparr>;
               u = u\<lparr>Path := TrimSuffix (Path u) ''/''\<rparr>
           in String url u))"

subsection \<open>A model of \<^verbatim>\<open>net/url\<close> on plain URLs\<close>

text \<open>
  Modelled from the documented behaviour of Go's \<^verbatim>\<open>net/url\<close>, for concrete
  evaluation. The model follows \<^verbatim>\<open>url.Parse\<close>, \<^verbatim>\<open>URL.Query\<close>,
  \<^verbatim>\<open>Values.Encode\<close> and \<^verbatim>\<open>URL.String\<close> on the strings made of unreserved
  characters (letters, digits, \<open>- _ . ~\<close>) and of \<open>: / ? = &\<close>, which is what
  \<open>plainURL\<close> says. A string with any other byte (percent escapes, fragments, user
  information, bracketed hosts, spaces, control characters) is outside the model, and
  the model's \<open>Parse\<close> answers it with an error of its own.
\<close>

definition asciiLetter :: "char \<Rightarrow> bool" where
  "asciiLetter c =
     ((97::nat) \<le> of_char c \<and> of_char c \<le> (122::nat)
      \<or> (65::nat) \<le> of_char c \<and> of_char c \<le> (90::nat))"

definition asciiDigit :: "char \<Rightarrow> bool" where
  "asciiDigit c = ((48::nat) \<le> of_char c \<and> of_char c \<le> (57::nat))"

definition unreserved :: "char \<Rightarrow> bool" where
  "unreserved c = (asciiLetter c \<or> asciiDigit c \<or> c \<in> set ''-_.~'')"

definition plainURL :: "string \<Rightarrow> bool" where
  "plainURL s = list_all (\<lambda>c. unreserved c \<or> c \<in> set '':/?=&'') s"

text \<open>\<^verbatim>\<open>strings.Cut\<close> at a single separator byte, and \<^verbatim>\<open>strings.Count\<close> of it.\<close>

definition Cut :: "string \<Rightarrow> char \<Rightarrow> string \<times> string" where
  "Cut s sep = (takeWhile (\<lambda>c. c \<noteq> sep) s, drop 1 (dropWhile (\<lambda>c. c \<noteq> sep) s))"

definition Count :: "string \<Rightarrow> char \<Rightarrow> nat" where
  "Count s sep = length (filter (\<lambda>c. c = sep) s)"

text \<open>
  \<^verbatim>\<open>getScheme\<close>: the scheme and the rest behind its colon; no scheme when the string
  starts with a digit or sign or meets another byte before any colon; an error when the
  string starts with a colon.
\<close>

fun getSchemeFrom :: "string \<Rightarrow> nat \<Rightarrow> string \<Rightarrow> error + (string \<times> string)" where
  "getSchemeFrom rawURL i [] = Inr ([], rawURL)"
| "getSchemeFrom rawURL i (c # cs) =
     (if asciiLetter c then getSchemeFrom rawURL (Suc i) cs
      else if asciiDigit c \<or> c \<in> set ''+-.'' then
        (if i = 0 then Inr ([], rawURL) else getSchemeFrom rawURL (Suc i) cs)
      else if c = CHR '':'' then
        (if i = 0 then Inl ''missing protocol scheme''
         else Inr (take i rawURL, drop (Suc i) rawURL))
      else Inr ([], rawURL))"

definition getScheme :: "string \<Rightarrow> error + (string \<times> string)" where
  "getScheme rawURL = getSchemeFrom rawURL 0 rawURL"

definition emptyURL :: URL where
  "emptyURL =
     \<lparr>Scheme = [], Opaque = [], User = None, Host = [], Path = [], RawPath = [],
      OmitHost = False, ForceQuery = False, RawQuery = [], Fragment = [], RawFragment = []\<rparr>"

text \<open>
  \<^verbatim>\<open>validOptionalPort\<close> on the part of the host from its last colon on.
\<close>

definition validHost :: "string \<Rightarrow> bool" where
  "validHost host =
     (case LastIndex host '':'' of
        None \<Rightarrow> True
      | Some i \<Rightarrow> list_all asciiDigit (drop (Suc i) host))"

definition plainParse :: "string \<Rightarrow> error + URL" where
  "plainParse rawURL =
     (if \<not> plainURL rawURL then Inl ''outside the modelled syntax''
      else
        (case getScheme rawURL of
           Inl err \<Rightarrow> Inl err
         | Inr (scheme, rest) \<Rightarrow>
             (let u = emptyURL\<lparr>Scheme := map asciiLower scheme\<rparr>;
                  force = (HasSuffix rest ''?'' \<and> Count rest CHR ''?'' = 1);
                  u = u\<lparr>ForceQuery := force\<rparr>;
                  u = (if force then u else u\<lparr>RawQuery := snd (Cut rest CHR ''?'')\<rparr>);
                  rest = (if force then take (length rest - 1) rest else fst (Cut rest CHR ''?''))
              in if \<not> HasPrefix rest ''/'' \<and> Scheme u \<noteq> [] then Inr (u\<lparr>Opaque := rest\<rparr>)
                 else if \<not> HasPrefix rest ''/'' \<and> CHR '':'' \<in> set (fst (Cut rest CHR ''/''))
                 then Inl ''first path segment in URL cannot contain colon''
                 else if (Scheme u \<noteq> [] \<or> \<not> HasPrefix rest ''///'') \<and> HasPrefix rest ''//''
                 then
                   (let authority = fst (Cut (drop 2 rest) CHR ''/'');
                        rest = dropWhile (\<lambda>c. c \<noteq> CHR ''/'') (drop 2 rest)
                    in if validHost authority
                       then Inr (u\<lparr>Host := authority, Path := rest\<rparr>)
                       else Inl ''invalid port after host'')
                 else if Scheme u \<noteq> [] \<and> HasPrefix rest ''/''
                 then Inr (u\<lparr>OmitHost := True, Path := rest\<rparr>)
                 else Inr (u\<lparr>Path := rest\<rparr>))))"

text \<open>
  \<^verbatim>\<open>URL.Query\<close>: the pairs of \<^verbatim>\<open>RawQuery\<close>, split at \<open>&\<close> and at the first
  \<open>=\<close>, empty pairs skipped, the values of one key collected in order.
\<close>

fun splitOn :: "char \<Rightarrow> string \<Rightarrow> string list" where
  "splitOn sep [] = [[]]"
| "splitOn sep (c # cs) =
     (if c = sep then [] # splitOn sep cs
      else (case splitOn sep cs of [] \<Rightarrow> [[c]] | x # xs \<Rightarrow> (c # x) # xs))"

definition addValue :: "string \<Rightarrow> string \<Rightarrow> Values \<Rightarrow> Values" where
  "addValue key val m =
     (if key \<in> set (map fst m)
      then map (\<lambda>(k, vs). if k = key then (k, vs @ [val]) else (k, vs)) m
      else m @ [(key, [val])])"

definition plainQuery :: "URL \<Rightarrow> Values" where
  "plainQuery u =
     fold (\<lambda>pair m. if pair = [] then m
                     else addValue (fst (Cut pair CHR ''='')) (snd (Cut pair CHR ''='')) m)
          (splitOn CHR ''&'' (RawQuery u)) []"

text \<open>
  \<^verbatim>\<open>url.QueryEscape\<close> keeps the unreserved characters, writes a space as \<open>+\<close>
  and every other byte as a percent escape with upper-case digits.
\<close>

definition hexDigit :: "nat \<Rightarrow> char" where
  "hexDigit n = (if n < 10 then char_of (48 + n) else char_of (55 + n))"

definition QueryEscape :: "string \<Rightarrow> string" where
  "QueryEscape s =
     concat (map (\<lambda>c. if unreserved c then [c]
                       else if c = CHR '' '' then ''+''
                       else [CHR ''%'', hexDigit ((of_char c :: nat) div 16),
                             hexDigit ((of_char c :: nat) mod 16)]) s)"

text \<open>\<^verbatim>\<open>Values.Encode\<close>: sorted by key (byte order), \<open>key=value\<close> pairs joined by \<open>&\<close>.\<close>

fun stringLess :: "string \<Rightarrow> string \<Rightarrow> bool" where
  "stringLess [] [] = False"
| "stringLess [] (y # ys) = True"
| "stringLess (x # xs) [] = False"
| "stringLess (x # xs) (y # ys) =
     ((of_char x :: nat) < of_char y \<or> (x = y \<and> stringLess xs ys))"

fun insertEntry :: "string \<times> string list \<Rightarrow> Values \<Rightarrow> Values" where
  "insertEntry e [] = [e]"
| "insertEntry e (x # xs) =
     (if stringLess (fst x) (fst e) then x # insertEntry e xs else e # x # xs)"

definition plainEncode :: "Values \<Rightarrow> string" where
  "plainEncode v =
     Join (concat (map (\<lambda>(k, vs). map (\<lambda>val. QueryEscape k @ ''='' @ QueryEscape val) vs)
                       (foldr insertEntry v [])))
          ''&''"

text \<open>
  \<^verbatim>\<open>URL.String\<close> for a URL without user information and fragment whose host and
  path need no escaping.
\<close>

definition plainString :: "URL \<Rightarrow> string" where
  "plainString u =
     (let buf = (if Scheme u \<noteq> [] then Scheme u @ '':'' else []);
          buf =
            (if Opaque u \<noteq> [] then buf @ Opaque u
             else
               (let buf =
                      (if Scheme u \<noteq> [] \<or> Host u \<noteq> [] then
                         (if OmitHost u \<and> Host u = [] then buf
                          else (if Host u \<noteq> [] \<or> Path u \<noteq> [] then buf @ ''//'' else buf)
                               @ Host u)
                       else buf);
                    path = Path u;
                    buf = (if path \<noteq> [] \<and> hd path \<noteq> CHR ''/'' \<and> Host u \<noteq> []
                           then buf @ ''/'' else buf);
                    buf = (if buf = [] \<and> CHR '':'' \<in> set (fst (Cut path CHR ''/''))
                           then buf @ ''./'' else buf)
                in buf @ path));
          buf = (if ForceQuery u \<or> RawQuery u \<noteq> [] then buf @ ''?'' @ RawQuery u else buf)
      in buf)"

definition plainURLPackage :: URLPackage where
  "plainURLPackage =
     \<lparr>Parse = plainParse, Query = plainQuery, Encode = plainEncode, String = plainString\<rparr>"

section \<open>The search executor\<close>

definition Fetch :: "DeepResearcher \<Rightarrow> (event list \<Rightarrow> string \<Rightarrow> int \<Rightarrow> error + string) \<Rightarrow> string \<Rightarrow> int \<Rightarrow> (error + string) \<times> DeepResearcher" where
  "Fetch a fetcher url maxLength =
     (let r = fetcher (history a) url maxLength
      in (r, a\<lparr>history := history a @ [FetchPageContentEvent url maxLength r]\<rparr>))"

definition callSearch :: "DeepResearcher \<Rightarrow> string \<Rightarrow> (error + Result list) \<times> DeepResearcher" where
  "callSearch a query =
     (let r = Search (searcher a) (history a) query
      in (r, a\<lparr>history := history a @ [SearchEvent query r]\<rparr>))"

definition callSearchWithPage :: "DeepResearcher \<Rightarrow> string \<Rightarrow> int \<Rightarrow> (error + Result list) \<times> DeepResearcher" where
  "callSearchWithPage a query page =
     (let r = SearchWithPage (searcher a) (history a) query page
      in (r, a\<lparr>history := history a @ [SearchWithPageEvent query page r]\<rparr>))"

text \<open>\<^verbatim>\<open>summarizePage\<close>.\<close>

definition summarizeMessages :: "string \<Rightarrow> string \<Rightarrow> string \<Rightarrow> Message list" where
  "summarizeMessages url title content =
     [\<lparr>Role = ''user'',
       Content =
         ''Summarize this webpage content in 2-3 sentences. Extract ONLY specific facts, prices, addresses, dates, or key data points. Be extremely concise.''
         @ [newline, newline] @ ''Title: '' @ title @ [newline] @ ''URL: '' @ url
         @ [newline] @ ''Content:'' @ [newline] @ content @ [newline, newline]
         @ ''Summary (2-3 sentences, facts only):''\<rparr>]"

definition summarizePage :: "DeepResearcher \<Rightarrow> string \<Rightarrow> string \<Rightarrow> string \<Rightarrow> string \<times> DeepResearcher" where
  "summarizePage a url title content =
     (if length content < 100 then (content, a)
      else
        (let (resp, a') = Chat a (summarizeMessages url title content) in
         case resp of
           Inl err \<Rightarrow> (take (min (length content) 300) content, a')
         | Inr resp \<Rightarrow> (stripThinkTags resp, a')))"

definition snippetEntry :: "Result \<Rightarrow> string" where
  "snippetEntry r =
     ''- '' @ Result.Title r @ [newline] @ ''  URL: '' @ Result.URL r @ [newline]
     @ ''  Snippet: '' @ Result.Content r @ [newline, newline]"

definition listingEntry :: "Result \<Rightarrow> string \<Rightarrow> string" where
  "listingEntry r summary =
     ''- LISTING: '' @ Result.Title r @ [newline] @ ''  URL: '' @ Result.URL r @ [newline]
     @ ''  Details: '' @ summary @ [newline, newline]"

text \<open>
  The state of one call of \<^verbatim>\<open>searchWithPagination\<close>: the text built so far and
  the two counters.
\<close>

record tally =
  results :: string
  newURLs :: nat
  duplicates :: nat

text \<open>
  \<^verbatim>\<open>searchWithPagination\<close> first finds out what the searcher can do:
  \<open>canPaginate\<close>, and the page fetcher to use (\<^verbatim>\<open>useDeepMode\<close>: deep mode is
  configured and the searcher can fetch pages).
\<close>

type_synonym fetcher = "event list \<Rightarrow> string \<Rightarrow> int \<Rightarrow> error + string"

definition useDeepMode :: "DeepResearcher \<Rightarrow> fetcher option" where
  "useDeepMode a = (if DeepMode (config a) then FetchPageContent (searcher a) else None)"

text \<open>The body of the loop over the results of one page.\<close>

definition processResult :: "URLPackage \<Rightarrow> fetcher option \<Rightarrow> Result \<Rightarrow> tally \<times> DeepResearcher \<Rightarrow> tally \<times> DeepResearcher" where
  "processResult url deep r ta =
     (let (t, a) = ta;
          normalizedURL = normalizeURL url (Result.URL r)
      in if normalizedURL \<in> seenURLs a then (t\<lparr>duplicates := duplicates t + 1\<rparr>, a)
         else
           (let a = a\<lparr>seenURLs := insert normalizedURL (seenURLs a)\<rparr>;
                t = t\<lparr>newURLs := newURLs t + 1\<rparr>;
                (t, a) =
                  (case deep of
                     Some fetcher \<Rightarrow>
                       (let (content, a) = Fetch a fetcher (Result.URL r) 6000 in
                        case content of
                          Inr content \<Rightarrow>
                            (if length content > 50 then
                               (let (summary, a) =
                                      summarizePage a (Result.URL r) (Result.Title r) content
                                in (t\<lparr>results := results t @ listingEntry r summary\<rparr>, a))
                             else (t\<lparr>results := results t @ snippetEntry r\<rparr>, a))
                        | Inl err \<Rightarrow> (t\<lparr>results := results t @ snippetEntry r\<rparr>, a))
                   | None \<Rightarrow> (t\<lparr>results := results t @ snippetEntry r\<rparr>, a))
            in (t, a\<lparr>sources := sources a
                      @ [\<lparr>Source.Title = Result.Title r, URL = Result.URL r\<rparr>]\<rparr>)))"

text \<open>
  The loop over the pages of one query, from \<open>page\<close> up to \<open>maxPages\<close>. It ends at
  the first error and at the first empty page; without pagination only page 1 is asked
  for.
\<close>

function pageLoop :: "URLPackage \<Rightarrow> bool \<Rightarrow> fetcher option \<Rightarrow> string \<Rightarrow> int \<Rightarrow> int \<Rightarrow> tally \<times> DeepResearcher \<Rightarrow> tally \<times> DeepResearcher" where
  "pageLoop url paginate deep query page maxPages ta =
     (if page \<le> maxPages then
        (let (t, a) = ta in
         if \<not> paginate \<and> page \<noteq> 1 then (t, a)
         else
           (let (searchResults, a) =
                  (if paginate then callSearchWithPage a query page
                   else callSearch a query)
            in case searchResults of
                 Inl err \<Rightarrow> (t, a)
               | Inr searchResults \<Rightarrow>
                   (if length searchResults = 0 then (t, a)
                    else pageLoop url paginate deep query (page + 1) maxPages
                           (fold (processResult url deep) searchResults (t, a)))))
      else ta)"
  by pat_completeness auto
termination
  by (relation "measure (\<lambda>(url, paginate, deep, query, page, maxPages, ta).
                           nat (maxPages + 1 - page))") auto

declare pageLoop.simps [simp del]

definition searchQuery :: "URLPackage \<Rightarrow> bool \<Rightarrow> fetcher option \<Rightarrow> string \<Rightarrow> tally \<times> DeepResearcher \<Rightarrow> tally \<times> DeepResearcher" where
  "searchQuery url paginate deep query ta =
     (let maxPages = MaxPages (config (snd ta));
          maxPages = (if maxPages = 0 then 100 else maxPages)
      in pageLoop url paginate deep query 1 maxPages ta)"

definition searchWithPagination :: "URLPackage \<Rightarrow> DeepResearcher \<Rightarrow> string list \<Rightarrow> (string \<times> nat \<times> nat) \<times> DeepResearcher" where
  "searchWithPagination url a queries =
     (let paginate = canPaginate (searcher a);
          deep = useDeepMode a;
          (t, a) = fold (searchQuery url paginate deep) queries
                     (\<lparr>results = [], newURLs = 0, duplicates = 0\<rparr>, a)
      in ((results t, newURLs t, duplicates t), a))"

text \<open>
  The results a stretch of history delivered: those of every search call that returned
  without error, in order.
\<close>

fun delivered :: "event list \<Rightarrow> Result list" where
  "delivered [] = []"
| "delivered (SearchEvent query (Inr rs) # h) = rs @ delivered h"
| "delivered (SearchWithPageEvent query page (Inr rs) # h) = rs @ delivered h"
| "delivered (e # h) = delivered h"

text \<open>
  The deduplication invariant of a run: as many sources as URLs seen. And the account
  of a stretch \<open>h\<close> of history between two states of the executor: the URLs seen grow
  by the normalized URLs of the results delivered, every result delivered is counted
  once, as new or as duplicate, every new one adds one source, and the invariant is kept.
\<close>

definition dedupInvariant :: "DeepResearcher \<Rightarrow> bool" where
  "dedupInvariant a = (finite (seenURLs a) \<and> length (sources a) = card (seenURLs a))"

definition accounts :: "URLPackage \<Rightarrow> tally \<times> DeepResearcher \<Rightarrow> tally \<times> DeepResearcher \<Rightarrow> event list \<Rightarrow> bool" where
  "accounts url ta ta' h =
     (history (snd ta') = history (snd ta) @ h
      \<and> searcher (snd ta') = searcher (snd ta)
      \<and> config (snd ta') = config (snd ta)
      \<and> llmClient (snd ta') = llmClient (snd ta)
      \<and> seenURLs (snd ta')
          = seenURLs (snd ta) \<union> normalizeURL url ` Result.URL ` set (delivered h)
      \<and> newURLs (fst ta') + duplicates (fst ta')
          = newURLs (fst ta) + duplicates (fst ta) + length (delivered h)
      \<and> length (sources (snd ta')) + newURLs (fst ta)
          = length (sources (snd ta)) + newURLs (fst ta')
      \<and> (dedupInvariant (snd ta) \<longrightarrow> dedupInvariant (snd ta')))"

section \<open>Writing the report\<close>

definition reportMessages :: "Config \<Rightarrow> string \<Rightarrow> string \<Rightarrow> Message list" where
  "reportMessages cfg topic currentContext =
     (let linkEmphasis =
            (if ResultLinks cfg
             then [newline, newline]
                  @ ''CRITICAL: Include direct clickable links [Title](URL) for each item.''
             else [])
      in [\<lparr>Role = ''user'',
           Content = ''Write a research report for: '' @ topic @ [newline, newline]
             @ ''Data:'' @ [newline] @ currentContext @ [newline, newline]
             @ ''Format with Markdown. Include source URLs.'' @ linkEmphasis\<rparr>])"

text \<open>
  What one pass of the retry loop of \<^verbatim>\<open>writeReport\<close> did, kept for the statements
  about the loop: the number of the attempt, the ceiling \<^verbatim>\<open>maxContextChars\<close> in
  force, the context the attempt started from, whether compression was needed and, if
  so, the target ratio and whether it failed, the context placed in the prompt, and the
  answer of the generation call.
\<close>

datatype compression = NotNeeded | Compressed rat | CompressionFailed rat

record Attempt =
  number :: nat
  limit :: nat
  contextBefore :: string
  compression :: compression
  promptContext :: string
  response :: "error + string"

text \<open>
  The first half of the loop body: a context above the ceiling is compressed with the
  ratio \<^verbatim>\<open>0.5 / float64(attempt)\<close>; when the compression returns an error the
  context is cut to the ceiling instead.
\<close>

definition fitContext :: "DeepResearcher \<Rightarrow> nat \<Rightarrow> nat \<Rightarrow> string \<Rightarrow> ((compression \<times> string) \<times> DeepResearcher) option" where
  "fitContext a attempt maxContextChars' currentContext =
     (if length currentContext > maxContextChars' then
        (let targetRatio = (1 / 2) / of_nat attempt in
         case compressContext a currentContext targetRatio of
           None \<Rightarrow> None
         | Some ((compressed, err), a) \<Rightarrow>
             (case err of
                Some _ \<Rightarrow>
                  (if length currentContext > maxContextChars'
                   then Some ((CompressionFailed targetRatio,
                               take maxContextChars' currentContext), a)
                   else Some ((CompressionFailed targetRatio, currentContext), a))
              | None \<Rightarrow> Some ((Compressed targetRatio, compressed), a)))
      else Some ((NotNeeded, currentContext), a))"

definition budgetRelated :: "error \<Rightarrow> bool" where
  "budgetRelated err = (Contains err ''context'' \<or> Contains err ''token'')"

definition maxRetries :: nat where
  "maxRetries = 3"

text \<open>
  The retry loop, from attempt \<open>attempt\<close> on. It returns the report or the error, and
  the attempts made.
\<close>

function reportLoop :: "DeepResearcher \<Rightarrow> string \<Rightarrow> nat \<Rightarrow> nat \<Rightarrow> string \<Rightarrow> (((error + string) \<times> Attempt list) \<times> DeepResearcher) option" where
  "reportLoop a topic attempt maxContextChars' currentContext =
     (if attempt \<le> maxRetries then
        (case fitContext a attempt maxContextChars' currentContext of
           None \<Rightarrow> None
         | Some ((how, fitted), a) \<Rightarrow>
             (let (resp, a) = Chat a (reportMessages (config a) topic fitted);
                  this = \<lparr>number = attempt, limit = maxContextChars',
                          contextBefore = currentContext, compression = how,
                          promptContext = fitted, response = resp\<rparr>
              in case resp of
                   Inl err \<Rightarrow>
                     (if attempt < maxRetries \<and> budgetRelated err
                      then map_option (\<lambda>((r, later), a). ((r, this # later), a))
                             (reportLoop a topic (attempt + 1) (maxContextChars' div 2) fitted)
                      else Some ((Inl (''report generation failed after '' @ showNat attempt
                                        @ '' attempts: '' @ err), [this]), a))
                 | Inr resp \<Rightarrow> Some ((Inr (stripThinkTags resp), [this]), a)))
      else Some ((Inl (''failed to generate report after '' @ showNat maxRetries
                       @ '' attempts''), []), a))"
  by pat_completeness auto
termination
  by (relation "measure (\<lambda>(a, topic, attempt, maxContextChars', currentContext).
                           maxRetries - attempt)") auto

declare reportLoop.simps [simp del]

definition writeReportAttempts :: "DeepResearcher \<Rightarrow> string \<Rightarrow> string \<Rightarrow> (((error + string) \<times> Attempt list) \<times> DeepResearcher) option" where
  "writeReportAttempts a topic context =
     (let maxChars = maxContextChars (config a);
          maxContextChars' = maxChars div 2
      in reportLoop a topic 1 maxContextChars' context)"

definition writeReport :: "DeepResearcher \<Rightarrow> string \<Rightarrow> string \<Rightarrow> ((error + string) \<times> DeepResearcher) option" where
  "writeReport a topic context =
     map_option (\<lambda>((r, attempts), a). (r, a)) (writeReportAttempts a topic context)"

text \<open>
  The retry ladder in the words of the specification, as a property of the list of
  attempts made from attempt \<open>k\<close> on with ceiling \<open>c\<close> and context \<open>ctx\<close>: attempt
  \<open>k\<close> compresses a context above the ceiling with ratio \<open>0.5 / k\<close>; a failed
  compression leaves the context cut to the ceiling; a further attempt follows only a
  budget-related generation error, with half the ceiling and the context of the prompt
  just tried; there is no attempt after the third.
\<close>

fun retryLadder :: "nat \<Rightarrow> nat \<Rightarrow> string \<Rightarrow> Attempt list \<Rightarrow> bool" where
  "retryLadder k c ctx [] = False"
| "retryLadder k c ctx (t # ts) =
     (number t = k \<and> limit t = c \<and> contextBefore t = ctx \<and> k \<le> 3
      \<and> (case compression t of
            NotNeeded \<Rightarrow> length ctx \<le> c \<and> promptContext t = ctx
          | Compressed r \<Rightarrow> c < length ctx \<and> r = (1 / 2) / of_nat k
          | CompressionFailed r \<Rightarrow>
              c < length ctx \<and> r = (1 / 2) / of_nat k \<and> promptContext t = take c ctx)
      \<and> (if ts = []
          then (case response t of Inl err \<Rightarrow> k = 3 \<or> \<not> budgetRelated err | Inr resp \<Rightarrow> True)
          else (case response t of Inl err \<Rightarrow> budgetRelated err | Inr resp \<Rightarrow> False)
               \<and> k < 3 \<and> retryLadder (k + 1) (c div 2) (promptContext t) ts))"

text \<open>What \<^verbatim>\<open>writeReport\<close> returns, given the attempts it made.\<close>

definition reportOutcome :: "Attempt list \<Rightarrow> error + string" where
  "reportOutcome attempts =
     (case response (last attempts) of
        Inl err \<Rightarrow> Inl (''report generation failed after ''
                        @ showNat (number (last attempts)) @ '' attempts: '' @ err)
      | Inr resp \<Rightarrow> Inr (stripThinkTags resp))"

text \<open>A context of 1000 bytes and a compressed text of 900 bytes, for concrete runs.\<close>

definition context1000 :: string where
  "context1000 = replicate 1000 CHR ''a''"

definition answer900 :: string where
  "answer900 = replicate 900 CHR ''b''"

section \<open>Properties of the chunking\<close>

lemma LastIndex_bound:
  "LastIndex s sub = Some i \<Longrightarrow> i + length sub \<le> length s"
proof (induction s arbitrary: i)
  case Nil
  then show ?case by (simp split: if_splits)
next
  case (Cons c s)
  show ?case
  proof (cases "LastIndex s sub")
    case None
    with Cons.prems show ?thesis
      by (simp add: HasPrefix_def split: if_splits)
  next
    case (Some j)
    with Cons.prems have "i = Suc j" by simp
    with Cons.IH [OF Some] show ?thesis by simp
  qed
qed

lemma LastIndex_drop_bound:
  assumes "LastIndex (drop st chunk) sub = Some i" and "st \<le> length chunk"
  shows "st + i + length sub \<le> length chunk"
proof -
  from LastIndex_bound [OF assms(1)] have "i + length sub \<le> length chunk - st"
    by simp
  with assms(2) show ?thesis by arith
qed

lemma findBreakPoint_bounds:
  assumes "1 \<le> maxChunkSize" and "length chunk = maxChunkSize"
  shows "1 \<le> findBreakPoint chunk maxChunkSize"
    and "findBreakPoint chunk maxChunkSize \<le> maxChunkSize"
proof -
  define st where "st = (4 * maxChunkSize) div 5"
  have st: "st \<le> length chunk"
    using assms by (simp add: st_def)
  note b = LastIndex_drop_bound [OF _ st]
  show "1 \<le> findBreakPoint chunk maxChunkSize"
    using assms(1) unfolding findBreakPoint_def Let_def
    by (simp split: option.split)
  show "findBreakPoint chunk maxChunkSize \<le> maxChunkSize"
    unfolding findBreakPoint_def Let_def st_def [symmetric]
    using b [of "[newline, newline]"] b [of "[newline]"] b [of "'' ''"] assms(2)
    by (simp split: option.split)
qed

lemma splitLoop_total:
  assumes "1 \<le> maxChunkSize"
  shows "\<exists>out. splitLoop chunks remaining maxChunkSize = Some (chunks @ out)
           \<and> concat out = remaining
           \<and> (\<forall>c \<in> set out. c \<noteq> [] \<and> length c \<le> maxChunkSize)"
proof (induction "length remaining" arbitrary: chunks remaining rule: less_induct)
  case less
  show ?case
  proof (cases "remaining = []")
    case True
    then show ?thesis
      by (subst splitLoop.simps) simp
  next
    case ne: False
    show ?thesis
    proof (cases "length remaining \<le> maxChunkSize")
      case True
      with ne show ?thesis
        by (subst splitLoop.simps) simp
    next
      case False
      define bp where "bp = findBreakPoint (take maxChunkSize remaining) maxChunkSize"
      have lenchunk: "length (take maxChunkSize remaining) = maxChunkSize"
        using False by simp
      have bp1: "1 \<le> bp" and bp2: "bp \<le> maxChunkSize"
        unfolding bp_def using findBreakPoint_bounds [OF assms lenchunk] by simp_all
      have shorter: "length (drop bp remaining) < length remaining"
        using bp1 False by simp
      from less [OF shorter, of "chunks @ [take bp remaining]"]
      obtain out where out:
        "splitLoop (chunks @ [take bp remaining]) (drop bp remaining) maxChunkSize
           = Some ((chunks @ [take bp remaining]) @ out)"
        "concat out = drop bp remaining"
        "\<forall>c \<in> set out. c \<noteq> [] \<and> length c \<le> maxChunkSize"
        by blast
      have unfold: "splitLoop chunks remaining maxChunkSize
          = splitLoop (chunks @ [take bp remaining]) (drop bp remaining) maxChunkSize"
        using ne False by (subst splitLoop.simps) (simp add: bp_def Let_def)
      have "take bp remaining \<noteq> []"
        using bp1 ne by (cases remaining) auto
      moreover have "length (take bp remaining) \<le> maxChunkSize"
        using bp2 by simp
      ultimately show ?thesis
        using out unfold
        by (intro exI [of _ "take bp remaining # out"]) simp
    qed
  qed
qed

text \<open>
  C4. For every text and every chunk size \<open>S \<ge> 1\<close>, \<^verbatim>\<open>splitContextIntoChunks\<close>
  returns chunks whose concatenation, in order, is exactly the text, and no chunk is
  longer than \<open>S\<close> bytes.
\<close>

theorem C4_chunks_reconstruct_and_fit:
  assumes "1 \<le> S"
  shows "\<exists>chunks. splitContextIntoChunks text S = Some chunks
           \<and> concat chunks = text
           \<and> (\<forall>c \<in> set chunks. length c \<le> S)"
proof (cases "length text \<le> S")
  case True
  then show ?thesis by (simp add: splitContextIntoChunks_def)
next
  case False
  from splitLoop_total [OF assms, of "[]" "text"]
  show ?thesis using False by (auto simp: splitContextIntoChunks_def)
qed

lemma splitContextIntoChunks_example:
  "splitContextIntoChunks ''abcdefgh ijklmn'' 10 = Some [''abcdefgh '', ''ijklmn'']"
  by (simp add: splitContextIntoChunks_def splitLoop.simps findBreakPoint_def HasPrefix_def)

theorem C4_chunks_reconstruct_and_fit_witness:
  "(1::nat) \<le> 10
   \<and> (\<exists>chunks. splitContextIntoChunks ''abcdefgh ijklmn'' 10 = Some chunks
           \<and> concat chunks = ''abcdefgh ijklmn''
           \<and> (\<forall>c \<in> set chunks. length c \<le> 10))"
  using C4_chunks_reconstruct_and_fit [of 10 "''abcdefgh ijklmn''"] by simp

text \<open>
  C10, as stated, fails on the empty text: the early return
  \<^verbatim>\<open>if len(text) <= maxChunkSize { return []string{text} }\<close> hands back the
  text as the only chunk, and that chunk is empty.
\<close>

theorem C10_empty_text_counterexample:
  "\<not> (\<exists>chunks. splitContextIntoChunks [] 1 = Some chunks \<and> (\<forall>c \<in> set chunks. c \<noteq> []))"
  by (simp add: splitContextIntoChunks_def)

text \<open>
  C10 (amended). For every text and every chunk size \<open>S \<ge> 1\<close>,
  \<^verbatim>\<open>splitContextIntoChunks\<close> returns: whenever the loop body runs (more than
  \<open>S\<close> bytes remain) the break point it chooses is at least 1 and at most \<open>S\<close>,
  so every iteration removes at least one byte. Every chunk returned is non-empty
  provided the text itself is non-empty.
\<close>

theorem C10_terminates_nonempty_chunks:
  assumes "1 \<le> S"
  shows "(\<exists>chunks. splitContextIntoChunks text S = Some chunks
            \<and> (text \<noteq> [] \<longrightarrow> (\<forall>c \<in> set chunks. c \<noteq> [])))
         \<and> (S < length remaining \<longrightarrow>
              1 \<le> findBreakPoint (take S remaining) S
              \<and> findBreakPoint (take S remaining) S \<le> S)"
proof
  show "\<exists>chunks. splitContextIntoChunks text S = Some chunks
            \<and> (text \<noteq> [] \<longrightarrow> (\<forall>c \<in> set chunks. c \<noteq> []))"
  proof (cases "length text \<le> S")
    case True
    then show ?thesis by (simp add: splitContextIntoChunks_def)
  next
    case False
    from splitLoop_total [OF assms, of "[]" "text"]
    show ?thesis using False by (auto simp: splitContextIntoChunks_def)
  qed
  show "S < length remaining \<longrightarrow>
          1 \<le> findBreakPoint (take S remaining) S
          \<and> findBreakPoint (take S remaining) S \<le> S"
    using findBreakPoint_bounds [OF assms, of "take S remaining"] by simp
qed

theorem C10_terminates_nonempty_chunks_witness:
  "(1::nat) \<le> 10
   \<and> ''abcdefgh ijklmn'' \<noteq> []
   \<and> 10 < length ''abcdefgh ijklmn''
   \<and> (\<exists>chunks. splitContextIntoChunks ''abcdefgh ijklmn'' 10 = Some chunks
          \<and> (\<forall>c \<in> set chunks. c \<noteq> []))
   \<and> 1 \<le> findBreakPoint (take 10 ''abcdefgh ijklmn'') 10
   \<and> findBreakPoint (take 10 ''abcdefgh ijklmn'') 10 \<le> 10"
  using C10_terminates_nonempty_chunks [of 10 "''abcdefgh ijklmn''" "''abcdefgh ijklmn''"]
  by simp
section \<open>Properties of the query expansion\<close>

lemma set_mapSet: "set (mapSet k m) = insert k (set m)"
  by (auto simp: mapSet_def)

lemma set_fold_mapSet: "set (fold mapSet ks m) = set m \<union> set ks"
  by (induction ks arbitrary: m) (auto simp: set_mapSet)

lemma set_addBaseQueries:
  "set (addBaseQueries bs m) = set m \<union> {q \<in> set bs. length q \<le> 60}"
  unfolding addBaseQueries_def
  by (induction bs arbitrary: m) (auto simp: set_mapSet)

lemma set_platform_fold:
  "set (fold (\<lambda>platform m'. if platform \<noteq> [] then mapSet (platform @ '' '' @ q) m' else m') ps m)
     = set m \<union> (\<lambda>p. p @ '' '' @ q) ` {p \<in> set ps. p \<noteq> []}"
  by (induction ps arbitrary: m) (auto simp: set_mapSet)

lemma set_addPlatformQueries:
  "set (addPlatformQueries bs ps m)
     = set m \<union> (\<Union>q \<in> {q \<in> set bs. length q \<le> 40}.
                    (\<lambda>p. p @ '' '' @ q) ` {p \<in> set ps. p \<noteq> []})"
  unfolding addPlatformQueries_def
proof (induction bs arbitrary: m)
  case Nil
  then show ?case by simp
next
  case (Cons b bs)
  let ?inner = "\<lambda>q. fold (\<lambda>platform m'. if platform \<noteq> [] then mapSet (platform @ '' '' @ q) m' else m') ps"
  show ?case
  proof (cases "length b > 40")
    case True
    then show ?thesis
      using Cons.IH [of m] by auto
  next
    case False
    have "set (fold (\<lambda>q m. if 40 < length q then m else ?inner q m) (b # bs) m)
          = set (?inner b m) \<union> (\<Union>q \<in> {q \<in> set bs. length q \<le> 40}.
                    (\<lambda>p. p @ '' '' @ q) ` {p \<in> set ps. p \<noteq> []})"
      using False Cons.IH [of "?inner b m"] by simp
    also have "set (?inner b m) = set m \<union> (\<lambda>p. p @ '' '' @ b) ` {p \<in> set ps. p \<noteq> []}"
      by (rule set_platform_fold)
    finally show ?thesis
      using False by auto
  qed
qed

lemma synonymVariants_short:
  "\<forall>x \<in> set m. length x \<le> 60 \<Longrightarrow>
   \<forall>x \<in> set (synonymVariants u lowerQ wordLower syns m). length x \<le> 60"
  unfolding synonymVariants_def
proof (induction syns arbitrary: m)
  case Nil
  then show ?case by simp
next
  case (Cons syn syns)
  let ?step = "\<lambda>syn m.
        if ToLower u syn \<noteq> wordLower then
          (let newQuery = ReplaceAll lowerQ wordLower (ToLower u syn) in
           if length newQuery \<le> 60 then mapSet newQuery m else m)
        else m"
  have "\<forall>x \<in> set (?step syn m). length x \<le> 60"
    using Cons.prems by (simp add: Let_def set_mapSet)
  from Cons.IH [OF this] show ?case by simp
qed

lemma synonym_word_fold_short:
  "\<forall>x \<in> set m. length x \<le> 60 \<Longrightarrow>
   \<forall>x \<in> set (fold (\<lambda>(word, syns) m'.
                  (let wordLower = ToLower u word in
                   if Contains lowerQ wordLower
                   then synonymVariants u lowerQ wordLower syns m'
                   else m')) synonyms m). length x \<le> 60"
proof (induction synonyms arbitrary: m)
  case Nil
  then show ?case by simp
next
  case (Cons ws synonyms)
  obtain word syns where ws: "ws = (word, syns)" by (cases ws)
  show ?case
    using Cons.prems synonymVariants_short [of m u lowerQ "ToLower u word" syns]
    by (simp add: ws Let_def Cons.IH)
qed

lemma addSynonymQueries_short:
  "\<forall>x \<in> set m. length x \<le> 60 \<Longrightarrow>
   \<forall>x \<in> set (addSynonymQueries u bs synonyms m). length x \<le> 60"
  unfolding addSynonymQueries_def
proof (induction bs arbitrary: m)
  case Nil
  then show ?case by simp
next
  case (Cons b bs)
  show ?case
    using Cons.prems synonym_word_fold_short [of m u "ToLower u b" synonyms]
    by (simp add: Let_def Cons.IH)
qed

lemma set_expandedMap:
  "set (expandedMap u bs e)
     = {q \<in> set bs. length q \<le> 60}
       \<union> (\<Union>q \<in> {q \<in> set bs. length q \<le> 40}.
            (\<lambda>p. p @ '' '' @ q) ` {p \<in> set (Platforms e). p \<noteq> []})
       \<union> set (addSynonymQueries u bs (Synonyms e) [])"
  by (simp add: expandedMap_def Let_def set_fold_mapSet set_addPlatformQueries set_addBaseQueries)

lemma distinct_mapSet: "distinct m \<Longrightarrow> distinct (mapSet k m)"
  by (simp add: mapSet_def)

lemma length_expandQueriesWithLLM:
  "length (expandQueriesWithLLM u rank bs e) \<le> 150"
  by (simp add: expandQueriesWithLLM_def maxQueries_def)

lemma set_expandQueriesWithLLM_subset:
  "set (expandQueriesWithLLM u rank bs e) \<subseteq> set (expandedMap u bs e)"
  unfolding expandQueriesWithLLM_def rangeKeys_def
  using set_take_subset [of maxQueries "sort_key rank (expandedMap u bs e)"] by simp

lemma set_expandQueriesWithLLM_all:
  "length (expandedMap u bs e) \<le> 150 \<Longrightarrow>
   set (expandQueriesWithLLM u rank bs e) = set (expandedMap u bs e)"
  by (simp add: expandQueriesWithLLM_def rangeKeys_def maxQueries_def)

lemma platform_example_expandedMap:
  "expandedMap u [''rent'']
     \<lparr>Synonyms = [], Platforms = [''site:apartments-and-houses-for-rent-marketplace.example.com'']\<rparr>
   = [''rent'', ''site:apartments-and-houses-for-rent-marketplace.example.com rent'']"
  by code_simp

lemma flat_example_expandedMap:
  "expandedMap u [''a flat for rent''] \<lparr>Synonyms = [(''flat'', [''apartment''])], Platforms = []\<rparr>
   = [''a flat for rent'', ''a apartment for rent'']"
  by code_simp

text \<open>
  C3, as stated, fails for the platform-prefixed queries: step 2 bounds the seed query
  (\<^verbatim>\<open>len(q) > 40\<close> is skipped) but not the prefixed query, so a long platform
  prefix yields a query of more than 60 bytes, whatever the iteration order.
\<close>

theorem C3_platform_prefix_counterexample:
  "\<forall>unicodeLower rank.
     ''site:apartments-and-houses-for-rent-marketplace.example.com rent''
       \<in> set (expandQueriesWithLLM unicodeLower rank [''rent'']
                \<lparr>Synonyms = [],
                   Platforms = [''site:apartments-and-houses-for-rent-marketplace.example.com'']\<rparr>)
     \<and> 60 < length ''site:apartments-and-houses-for-rent-marketplace.example.com rent''"
  by (simp add: set_expandQueriesWithLLM_all platform_example_expandedMap)

text \<open>
  C3 (amended). For every list of seed queries and every expansion,
  \<^verbatim>\<open>expandQueriesWithLLM\<close> returns at most 150 queries, and every query it returns
  either has at most 60 bytes or is a non-empty platform prefix, a space and a seed query
  of at most 40 bytes.
\<close>

theorem C3_cap_and_query_length:
  "length (expandQueriesWithLLM unicodeLower rank baseQueries expansion) \<le> 150
   \<and> (\<forall>q \<in> set (expandQueriesWithLLM unicodeLower rank baseQueries expansion).
        length q \<le> 60
        \<or> (\<exists>platform \<in> set (Platforms expansion). \<exists>s \<in> set baseQueries.
              platform \<noteq> [] \<and> length s \<le> 40 \<and> q = platform @ '' '' @ s))"
proof (intro conjI ballI)
  show "length (expandQueriesWithLLM unicodeLower rank baseQueries expansion) \<le> 150"
    by (rule length_expandQueriesWithLLM)
next
  fix q assume "q \<in> set (expandQueriesWithLLM unicodeLower rank baseQueries expansion)"
  then have "q \<in> set (expandedMap unicodeLower baseQueries expansion)"
    using set_expandQueriesWithLLM_subset by blast
  then show "length q \<le> 60
        \<or> (\<exists>platform \<in> set (Platforms expansion). \<exists>s \<in> set baseQueries.
              platform \<noteq> [] \<and> length s \<le> 40 \<and> q = platform @ '' '' @ s)"
    using addSynonymQueries_short [of "[]" unicodeLower baseQueries "Synonyms expansion"]
    by (auto simp: set_expandedMap)
qed

theorem C3_cap_and_query_length_witness:
  "length (expandQueriesWithLLM id (\<lambda>_. 0) [''a flat for rent'']
             \<lparr>Synonyms = [(''flat'', [''apartment''])], Platforms = []\<rparr>) \<le> 150
   \<and> ''a apartment for rent''
         \<in> set (expandQueriesWithLLM id (\<lambda>_. 0) [''a flat for rent'']
                  \<lparr>Synonyms = [(''flat'', [''apartment''])], Platforms = []\<rparr>)
   \<and> length ''a apartment for rent'' \<le> 60"
  using C3_cap_and_query_length [of id "\<lambda>_. 0" "[''a flat for rent'']"
      "\<lparr>Synonyms = [(''flat'', [''apartment''])], Platforms = []\<rparr>"]
  by (simp add: set_expandQueriesWithLLM_all flat_example_expandedMap)

text \<open>
  C7, as stated, fails once the expanded map has more than 150 keys: the cap keeps the
  first 150 keys in the order \<^verbatim>\<open>range\<close> yields them, and seed queries are among
  the keys it drops. With the 256 eight-letter strings over \<open>a\<close> and \<open>b\<close> as seed
  queries and an empty expansion, some seed query is missing whatever the order.
\<close>

theorem C7_seed_dropped_counterexample:
  "\<forall>unicodeLower rank.
     \<not> (\<forall>q \<in> set (List.n_lists 8 ''ab''). length q \<le> 60 \<longrightarrow>
          q \<in> set (expandQueriesWithLLM unicodeLower rank (List.n_lists 8 ''ab'')
                    \<lparr>Synonyms = [], Platforms = []\<rparr>))"
proof (intro allI notI)
  fix unicodeLower rank
  let ?seeds = "List.n_lists 8 ''ab''"
  let ?out = "expandQueriesWithLLM unicodeLower rank ?seeds \<lparr>Synonyms = [], Platforms = []\<rparr>"
  assume all: "\<forall>q \<in> set ?seeds. length q \<le> 60 \<longrightarrow> q \<in> set ?out"
  have short: "\<forall>q \<in> set ?seeds. length q \<le> 60"
    by (auto simp: set_n_lists)
  have "distinct ?seeds"
    by (rule distinct_n_lists) simp
  then have "card (set ?seeds) = length ?seeds"
    by (rule distinct_card)
  also have "length ?seeds = length ''ab'' ^ 8"
    by (simp only: length_n_lists)
  also have "length ''ab'' = 2"
    by simp
  also have "(2::nat) ^ 8 = 256"
    by simp
  finally have "card (set ?seeds) = 256" .
  moreover have "set ?seeds \<subseteq> set ?out"
    using all short by blast
  then have "card (set ?seeds) \<le> card (set ?out)"
    by (intro card_mono) simp_all
  moreover have "card (set ?out) \<le> length ?out"
    by (rule card_length)
  moreover have "length ?out \<le> 150"
    by (rule length_expandQueriesWithLLM)
  ultimately show False by simp
qed

text \<open>
  C7 (amended). Whenever the expanded map has at most 150 keys, the output of
  \<^verbatim>\<open>expandQueriesWithLLM\<close> includes every seed query of at most 60 bytes unchanged.
  For the seed queries \<open>["a flat for rent"]\<close>, no platforms and the synonym map
  \<open>{"flat": ["apartment"]}\<close> the output contains both \<open>"a flat for rent"\<close> and
  \<open>"a apartment for rent"\<close>, in every iteration order.
\<close>

theorem C7_seed_queries_kept:
  "(length (expandedMap unicodeLower baseQueries expansion) \<le> 150 \<longrightarrow>
      (\<forall>q \<in> set baseQueries. length q \<le> 60 \<longrightarrow>
         q \<in> set (expandQueriesWithLLM unicodeLower rank baseQueries expansion)))
   \<and> ''a flat for rent''
         \<in> set (expandQueriesWithLLM unicodeLower rank [''a flat for rent'']
                  \<lparr>Synonyms = [(''flat'', [''apartment''])], Platforms = []\<rparr>)
   \<and> ''a apartment for rent''
         \<in> set (expandQueriesWithLLM unicodeLower rank [''a flat for rent'']
                  \<lparr>Synonyms = [(''flat'', [''apartment''])], Platforms = []\<rparr>)"
proof (intro conjI impI ballI)
  fix q
  assume "length (expandedMap unicodeLower baseQueries expansion) \<le> 150"
    and "q \<in> set baseQueries" and "length q \<le> 60"
  then show "q \<in> set (expandQueriesWithLLM unicodeLower rank baseQueries expansion)"
    by (simp add: set_expandQueriesWithLLM_all set_expandedMap)
qed (simp_all add: set_expandQueriesWithLLM_all flat_example_expandedMap)

theorem C7_seed_queries_kept_witness:
  "length (expandedMap id [''a Flat for rent'', ''Flat'']
             \<lparr>Synonyms = [(''flat'', [''apartment''])], Platforms = [''site:x.com'']\<rparr>) \<le> 150
   \<and> ''a Flat for rent'' \<in> set [''a Flat for rent'', ''Flat'']
   \<and> length ''a Flat for rent'' \<le> 60
   \<and> ''a Flat for rent''
         \<in> set (expandQueriesWithLLM id (\<lambda>_. 0) [''a Flat for rent'', ''Flat'']
                  \<lparr>Synonyms = [(''flat'', [''apartment''])], Platforms = [''site:x.com'']\<rparr>)"
proof -
  have len: "length (expandedMap id [''a Flat for rent'', ''Flat'']
             \<lparr>Synonyms = [(''flat'', [''apartment''])], Platforms = [''site:x.com'']\<rparr>) \<le> 150"
    by code_simp
  with C7_seed_queries_kept [of id "[''a Flat for rent'', ''Flat'']"
      "\<lparr>Synonyms = [(''flat'', [''apartment''])], Platforms = [''site:x.com'']\<rparr>" "\<lambda>_. 0"]
  show ?thesis by simp
qed

section \<open>Properties of the direct compression\<close>

lemma compressContextDirect_cases:
  "compressContextDirect a context targetRatio =
     (case llmClient a (history a) (compressMessages context targetRatio) of
        Inl err \<Rightarrow>
          ((context, Some (''compression failed: '' @ err)), snd (Chat a (compressMessages context targetRatio)))
      | Inr resp \<Rightarrow>
          (if length (TrimSpace (stripThinkTags resp)) < 200
           then ((context,
                  Some (''compression produced too small output (''
                        @ showNat (length (TrimSpace (stripThinkTags resp))) @ '' chars)'')),
                 snd (Chat a (compressMessages context targetRatio)))
           else ((TrimSpace (stripThinkTags resp), None),
                 snd (Chat a (compressMessages context targetRatio)))))"
  by (simp add: compressContextDirect_def Chat_def Let_def split: sum.split)

text \<open>
  C9. \<^verbatim>\<open>compressContextDirect\<close> returns an error exactly when the generation call
  fails or the cleaned output (think tags stripped, white space trimmed) has fewer than
  200 bytes; and whenever it returns an error, the text returned with it is the input
  context.
\<close>

theorem C9_direct_compression_errors:
  "(snd (fst (compressContextDirect a context targetRatio)) \<noteq> None)
     = (case llmClient a (history a) (compressMessages context targetRatio) of
          Inl err \<Rightarrow> True
        | Inr resp \<Rightarrow> length (TrimSpace (stripThinkTags resp)) < 200)
   \<and> (snd (fst (compressContextDirect a context targetRatio)) \<noteq> None
        \<longrightarrow> fst (fst (compressContextDirect a context targetRatio)) = context)"
  by (simp add: compressContextDirect_cases split: sum.split)

theorem C9_direct_compression_errors_witness:
  "snd (fst (compressContextDirect
               (NewDeepResearcher (\<lambda>h m. Inr ''<think>short</think> too small'') MockClient defaultConfig)
               ''User Query: flats'' (1 / 2))) \<noteq> None
   \<and> fst (fst (compressContextDirect
               (NewDeepResearcher (\<lambda>h m. Inr ''<think>short</think> too small'') MockClient defaultConfig)
               ''User Query: flats'' (1 / 2))) = ''User Query: flats''"
proof -
  have "length (TrimSpace (stripThinkTags ''<think>short</think> too small'')) < 200"
    by code_simp
  with C9_direct_compression_errors
         [of "NewDeepResearcher (\<lambda>h m. Inr ''<think>short</think> too small'') MockClient defaultConfig"
             "''User Query: flats''" "1 / 2"]
  show ?thesis by (simp add: NewDeepResearcher_def)
qed

section \<open>Properties of the search executor\<close>

lemma delivered_append: "delivered (h1 @ h2) = delivered h1 @ delivered h2"
  by (induction h1 rule: delivered.induct) simp_all

lemma Chat_frame:
  "Chat a m = (r, a') \<Longrightarrow> \<exists>h. a' = a\<lparr>history := history a @ h\<rparr> \<and> delivered h = []"
  by (auto simp: Chat_def Let_def)

lemma Fetch_frame:
  "Fetch a f u n = (r, a') \<Longrightarrow> \<exists>h. a' = a\<lparr>history := history a @ h\<rparr> \<and> delivered h = []"
  by (auto simp: Fetch_def Let_def)

lemma summarizePage_frame:
  "summarizePage a u t c = (s, a') \<Longrightarrow> \<exists>h. a' = a\<lparr>history := history a @ h\<rparr> \<and> delivered h = []"
proof (cases "length c < 100")
  case True
  assume "summarizePage a u t c = (s, a')"
  with True have "a' = a" by (simp add: summarizePage_def)
  then have "a' = a\<lparr>history := history a @ []\<rparr> \<and> delivered [] = []" by simp
  then show ?thesis by blast
next
  case False
  assume eq: "summarizePage a u t c = (s, a')"
  obtain r a1 where c: "Chat a (summarizeMessages u t c) = (r, a1)" by (cases "Chat a (summarizeMessages u t c)")
  with eq False have "a' = a1"
    by (auto simp: summarizePage_def split: sum.splits)
  with Chat_frame [OF c] show ?thesis by simp
qed

text \<open>Processing one result.\<close>

lemma processResult_step:
  assumes "processResult url deep r (t, a) = (t', a')"
  shows "\<exists>h. history a' = history a @ h \<and> delivered h = []
           \<and> searcher a' = searcher a \<and> config a' = config a \<and> llmClient a' = llmClient a
           \<and> seenURLs a' = insert (normalizeURL url (Result.URL r)) (seenURLs a)
           \<and> newURLs t' + duplicates t' = newURLs t + duplicates t + 1
           \<and> length (sources a') + newURLs t = length (sources a) + newURLs t'
           \<and> (normalizeURL url (Result.URL r) \<in> seenURLs a \<longrightarrow> sources a' = sources a \<and> duplicates t' = duplicates t + 1)
           \<and> (normalizeURL url (Result.URL r) \<notin> seenURLs a \<longrightarrow>
                  sources a' = sources a @ [\<lparr>Source.Title = Result.Title r, URL = Result.URL r\<rparr>] \<and> newURLs t' = newURLs t + 1)"
proof (cases "normalizeURL url (Result.URL r) \<in> seenURLs a")
  case True
  with assms have "t' = t\<lparr>duplicates := duplicates t + 1\<rparr>" "a' = a"
    by (simp_all add: processResult_def Let_def)
  with True show ?thesis by (auto simp: insert_absorb)
next
  case False
  define a0 where "a0 = a\<lparr>seenURLs := insert (normalizeURL url (Result.URL r)) (seenURLs a)\<rparr>"
  define t0 where "t0 = t\<lparr>newURLs := newURLs t + 1\<rparr>"
  define src where "src = \<lparr>Source.Title = Result.Title r, URL = Result.URL r\<rparr>"
  have "\<exists>h body. delivered h = [] \<and> t' = t0\<lparr>results := body\<rparr>
          \<and> a' = a0\<lparr>history := history a @ h, sources := sources a @ [src]\<rparr>"
  proof (cases deep)
    case None
    with assms False have "t' = t0\<lparr>results := results t @ snippetEntry r\<rparr>"
      "a' = a0\<lparr>sources := sources a @ [src]\<rparr>"
      by (simp_all add: processResult_def Let_def a0_def t0_def src_def)
    then have "delivered [] = [] \<and> t' = t0\<lparr>results := results t @ snippetEntry r\<rparr>
          \<and> a' = a0\<lparr>history := history a @ [], sources := sources a @ [src]\<rparr>"
      by (simp add: a0_def)
    then show ?thesis by blast
  next
    case (Some fetcher)
    obtain content a1 where f: "Fetch a0 fetcher (Result.URL r) 6000 = (content, a1)"
      by (cases "Fetch a0 fetcher (Result.URL r) 6000")
    from Fetch_frame [OF f] obtain h1 where h1: "a1 = a0\<lparr>history := history a0 @ h1\<rparr>" "delivered h1 = []"
      by blast
    show ?thesis
    proof (cases content)
      case (Inl err)
      with assms False Some f have "t' = t0\<lparr>results := results t @ snippetEntry r\<rparr>"
        "a' = a1\<lparr>sources := sources a1 @ [src]\<rparr>"
        by (simp_all add: processResult_def Let_def a0_def [symmetric] t0_def src_def)
      with h1 have "delivered h1 = [] \<and> t' = t0\<lparr>results := results t @ snippetEntry r\<rparr>
          \<and> a' = a0\<lparr>history := history a @ h1, sources := sources a @ [src]\<rparr>"
        by (simp add: a0_def)
      then show ?thesis by blast
    next
      case (Inr c)
      show ?thesis
      proof (cases "length c > 50")
        case False
        with assms \<open>normalizeURL url (Result.URL r) \<notin> seenURLs a\<close> Some f Inr
        have "t' = t0\<lparr>results := results t @ snippetEntry r\<rparr>"
          "a' = a1\<lparr>sources := sources a1 @ [src]\<rparr>"
          by (simp_all add: processResult_def Let_def a0_def [symmetric] t0_def src_def)
        with h1 have "delivered h1 = [] \<and> t' = t0\<lparr>results := results t @ snippetEntry r\<rparr>
          \<and> a' = a0\<lparr>history := history a @ h1, sources := sources a @ [src]\<rparr>"
          by (simp add: a0_def)
        then show ?thesis by blast
      next
        case True
        obtain summary a2 where s: "summarizePage a1 (Result.URL r) (Result.Title r) c = (summary, a2)"
          by (cases "summarizePage a1 (Result.URL r) (Result.Title r) c")
        from summarizePage_frame [OF s] obtain h2 where
          h2: "a2 = a1\<lparr>history := history a1 @ h2\<rparr>" "delivered h2 = []"
          by blast
        from assms \<open>normalizeURL url (Result.URL r) \<notin> seenURLs a\<close> Some f Inr True s
        have "t' = t0\<lparr>results := results t @ listingEntry r summary\<rparr>"
          "a' = a2\<lparr>sources := sources a2 @ [src]\<rparr>"
          by (simp_all add: processResult_def Let_def a0_def [symmetric] t0_def src_def)
        with h1 h2 have "delivered (h1 @ h2) = [] \<and> t' = t0\<lparr>results := results t @ listingEntry r summary\<rparr>
          \<and> a' = a0\<lparr>history := history a @ (h1 @ h2), sources := sources a @ [src]\<rparr>"
          by (simp add: a0_def delivered_append)
        then show ?thesis by blast
      qed
    qed
  qed
  then obtain h body where "delivered h = []" "t' = t0\<lparr>results := body\<rparr>"
    "a' = a0\<lparr>history := history a @ h, sources := sources a @ [src]\<rparr>"
    by blast
  with False show ?thesis
    by (auto simp: a0_def t0_def src_def)
qed

lemma fold_processResult:
  "fold (processResult url deep) rs (t, a) = (t', a') \<Longrightarrow>
   \<exists>h. history a' = history a @ h \<and> delivered h = []
     \<and> searcher a' = searcher a \<and> config a' = config a \<and> llmClient a' = llmClient a
     \<and> seenURLs a' = seenURLs a \<union> normalizeURL url ` Result.URL ` set rs
     \<and> newURLs t' + duplicates t' = newURLs t + duplicates t + length rs
     \<and> length (sources a') + newURLs t = length (sources a) + newURLs t'
     \<and> (dedupInvariant a \<longrightarrow> dedupInvariant a')"
proof (induction rs arbitrary: t a)
  case Nil
  then show ?case by simp
next
  case (Cons r rs)
  obtain t1 a1 where p: "processResult url deep r (t, a) = (t1, a1)"
    by (cases "processResult url deep r (t, a)")
  from processResult_step [OF p] obtain h1 where s1:
    "history a1 = history a @ h1" "delivered h1 = []"
    "searcher a1 = searcher a" "config a1 = config a" "llmClient a1 = llmClient a"
    "seenURLs a1 = insert (normalizeURL url (Result.URL r)) (seenURLs a)"
    "newURLs t1 + duplicates t1 = newURLs t + duplicates t + 1"
    "length (sources a1) + newURLs t = length (sources a) + newURLs t1"
    "normalizeURL url (Result.URL r) \<in> seenURLs a \<longrightarrow> sources a1 = sources a"
    "normalizeURL url (Result.URL r) \<notin> seenURLs a \<longrightarrow>
       sources a1 = sources a @ [\<lparr>Source.Title = Result.Title r, URL = Result.URL r\<rparr>]"
    by blast
  have inv1: "dedupInvariant a \<longrightarrow> dedupInvariant a1"
    using s1(6,9,10) by (cases "normalizeURL url (Result.URL r) \<in> seenURLs a")
      (auto simp: dedupInvariant_def insert_absorb)
  from Cons.prems p have "fold (processResult url deep) rs (t1, a1) = (t', a')"
    by simp
  from Cons.IH [OF this] obtain h2 where s2:
    "history a' = history a1 @ h2" "delivered h2 = []"
    "searcher a' = searcher a1" "config a' = config a1" "llmClient a' = llmClient a1"
    "seenURLs a' = seenURLs a1 \<union> normalizeURL url ` Result.URL ` set rs"
    "newURLs t' + duplicates t' = newURLs t1 + duplicates t1 + length rs"
    "length (sources a') + newURLs t1 = length (sources a1) + newURLs t'"
    "dedupInvariant a1 \<longrightarrow> dedupInvariant a'"
    by blast
  have "history a' = history a @ (h1 @ h2) \<and> delivered (h1 @ h2) = []"
    using s1 s2 by (simp add: delivered_append)
  moreover have "seenURLs a' = seenURLs a \<union> normalizeURL url ` Result.URL ` set (r # rs)"
    using s1 s2 by auto
  moreover have "newURLs t' + duplicates t' = newURLs t + duplicates t + length (r # rs)"
    using s1 s2 by simp
  moreover have "length (sources a') + newURLs t = length (sources a) + newURLs t'"
    using s1(8) s2(8) by arith
  ultimately show ?case
    using s1(3,4,5) s2(3,4,5,9) inv1 by (intro exI [of _ "h1 @ h2"]) simp
qed

lemma accounts_refl: "accounts url ta ta []"
  by (simp add: accounts_def)

lemma accounts_trans:
  assumes "accounts url x y h1" and "accounts url y z h2"
  shows "accounts url x z (h1 @ h2)"
proof -
  have "length (sources (snd z)) + newURLs (fst x) = length (sources (snd x)) + newURLs (fst z)"
    using assms unfolding accounts_def by arith
  moreover have "newURLs (fst z) + duplicates (fst z)
      = newURLs (fst x) + duplicates (fst x) + length (delivered (h1 @ h2))"
    using assms unfolding accounts_def by (simp add: delivered_append)
  moreover have "seenURLs (snd z)
      = seenURLs (snd x) \<union> normalizeURL url ` Result.URL ` set (delivered (h1 @ h2))"
    using assms unfolding accounts_def by (auto simp: delivered_append)
  ultimately show ?thesis
    using assms unfolding accounts_def by simp
qed

lemma page_accounts:
  assumes "history a1 = history a @ [e]" and "delivered [e] = rs"
    and "searcher a1 = searcher a" "config a1 = config a" "llmClient a1 = llmClient a"
    and "seenURLs a1 = seenURLs a" "sources a1 = sources a"
    and "fold (processResult url deep) rs (t, a1) = (t', a')"
  shows "\<exists>h. accounts url (t, a) (t', a') h"
proof -
  from fold_processResult [OF assms(8)] obtain h where s:
    "history a' = history a1 @ h" "delivered h = []"
    "searcher a' = searcher a1" "config a' = config a1" "llmClient a' = llmClient a1"
    "seenURLs a' = seenURLs a1 \<union> normalizeURL url ` Result.URL ` set rs"
    "newURLs t' + duplicates t' = newURLs t + duplicates t + length rs"
    "length (sources a') + newURLs t = length (sources a1) + newURLs t'"
    "dedupInvariant a1 \<longrightarrow> dedupInvariant a'"
    by blast
  have d: "delivered ([e] @ h) = rs"
    using assms(2) s(2) by (simp only: delivered_append) simp
  have "dedupInvariant a \<longrightarrow> dedupInvariant a1"
    using assms(6,7) by (simp add: dedupInvariant_def)
  then have "accounts url (t, a) (t', a') ([e] @ h)"
    unfolding accounts_def using assms(1,3-7) s d by simp
  then show ?thesis ..
qed

lemma pageLoop_accounts:
  "\<exists>h. accounts url ta (pageLoop url paginate deep query page maxPages ta) h"
proof (induction url paginate deep query page maxPages ta rule: pageLoop.induct)
  case (1 url paginate deep query page maxPages ta)
  obtain t a where ta: "ta = (t, a)" by (cases ta)
  let ?call = "if paginate then callSearchWithPage a query page else callSearch a query"
  obtain sr a1 where call: "?call = (sr, a1)" by (cases ?call)
  have stop: "\<exists>h. accounts url ta ta h"
    by (rule exI, rule accounts_refl)
  have frame: "\<exists>e. history a1 = history a @ [e] \<and> delivered [e] = (case sr of Inl _ \<Rightarrow> [] | Inr rs \<Rightarrow> rs)
        \<and> searcher a1 = searcher a \<and> config a1 = config a \<and> llmClient a1 = llmClient a
        \<and> seenURLs a1 = seenURLs a \<and> sources a1 = sources a"
    using call
    by (auto simp: callSearchWithPage_def callSearch_def Let_def split: if_splits sum.splits)
  show ?case
  proof (cases "page \<le> maxPages \<and> (paginate \<or> page = 1)")
    case False
    then have "pageLoop url paginate deep query page maxPages ta = ta"
      by (subst pageLoop.simps) (auto simp: ta)
    with stop show ?thesis by simp
  next
    case go: True
    show ?thesis
    proof (cases sr)
      case (Inl err)
      from frame Inl obtain e where e: "history a1 = history a @ [e]" "delivered [e] = []"
        "searcher a1 = searcher a" "config a1 = config a" "llmClient a1 = llmClient a"
        "seenURLs a1 = seenURLs a" "sources a1 = sources a"
        by auto
      have "pageLoop url paginate deep query page maxPages ta = (t, a1)"
        using go call Inl by (subst pageLoop.simps) (auto simp: ta)
      moreover have "accounts url (t, a) (t, a1) [e]"
        unfolding accounts_def using e by (simp add: dedupInvariant_def)
      ultimately show ?thesis using ta by auto
    next
      case (Inr rs)
      from frame Inr obtain e where e: "history a1 = history a @ [e]" "delivered [e] = rs"
        "searcher a1 = searcher a" "config a1 = config a" "llmClient a1 = llmClient a"
        "seenURLs a1 = seenURLs a" "sources a1 = sources a"
        by auto
      show ?thesis
      proof (cases "length rs = 0")
        case True
        have "pageLoop url paginate deep query page maxPages ta = (t, a1)"
          using go call Inr True by (subst pageLoop.simps) (auto simp: ta)
        moreover have "accounts url (t, a) (t, a1) [e]"
          unfolding accounts_def using e True by (simp add: dedupInvariant_def)
        ultimately show ?thesis using ta by auto
      next
        case False
        obtain t2 a2 where f: "fold (processResult url deep) rs (t, a1) = (t2, a2)"
          by (cases "fold (processResult url deep) rs (t, a1)")
        from page_accounts [OF e f] obtain h1 where h1: "accounts url (t, a) (t2, a2) h1"
          by blast
        have unfold: "pageLoop url paginate deep query page maxPages ta
            = pageLoop url paginate deep query (page + 1) maxPages (t2, a2)"
          using go call Inr False f
          by (subst pageLoop.simps) (auto simp: ta)
        have "\<exists>h. accounts url (t2, a2)
                 (pageLoop url paginate deep query (page + 1) maxPages (t2, a2)) h"
          using "1.IH" [of "(t, a)" t a "(sr, a1)" sr a1 rs] go call Inr False f ta
          by auto
        then obtain h2 where
          "accounts url (t2, a2) (pageLoop url paginate deep query (page + 1) maxPages (t2, a2)) h2"
          by blast
        from accounts_trans [OF h1 this] show ?thesis
          using unfold ta by auto
      qed
    qed
  qed
qed

lemma searchQuery_accounts:
  "\<exists>h. accounts url ta (searchQuery url paginate deep query ta) h"
  unfolding searchQuery_def Let_def by (rule pageLoop_accounts)

lemma fold_searchQuery_accounts:
  "\<exists>h. accounts url ta (fold (searchQuery url paginate deep) queries ta) h"
proof (induction queries arbitrary: ta)
  case Nil
  show ?case by (simp, rule exI, rule accounts_refl)
next
  case (Cons q queries)
  obtain h1 where "accounts url ta (searchQuery url paginate deep q ta) h1"
    using searchQuery_accounts by blast
  moreover obtain h2 where "accounts url (searchQuery url paginate deep q ta)
      (fold (searchQuery url paginate deep) queries (searchQuery url paginate deep q ta)) h2"
    using Cons.IH by blast
  ultimately show ?case
    using accounts_trans by fastforce
qed

lemma searchWithPagination_accounts:
  assumes "searchWithPagination url a queries = ((body, new, dup), a')"
  shows "\<exists>h. history a' = history a @ h
           \<and> seenURLs a' = seenURLs a \<union> normalizeURL url ` Result.URL ` set (delivered h)
           \<and> new + dup = length (delivered h)
           \<and> length (sources a') = length (sources a) + new
           \<and> (dedupInvariant a \<longrightarrow> dedupInvariant a')
           \<and> searcher a' = searcher a \<and> config a' = config a \<and> llmClient a' = llmClient a"
proof -
  let ?t0 = "\<lparr>results = [], newURLs = 0, duplicates = 0\<rparr>"
  obtain t where f: "fold (searchQuery url (canPaginate (searcher a)) (useDeepMode a)) queries (?t0, a) = (t, a')"
    and t: "new = newURLs t" "dup = duplicates t"
    using assms by (auto simp: searchWithPagination_def Let_def split: prod.splits)
  from fold_searchQuery_accounts [of url "(?t0, a)" "canPaginate (searcher a)" "useDeepMode a" queries]
  obtain h where "accounts url (?t0, a) (t, a') h"
    using f by auto
  then show ?thesis
    using t unfolding accounts_def by (intro exI [of _ h]) simp
qed

section \<open>Properties of the report writer\<close>

lemma fitContext_cases:
  assumes "fitContext a k c ctx = Some ((how, fitted), a1)"
  shows "case how of
           NotNeeded \<Rightarrow> length ctx \<le> c \<and> fitted = ctx
         | Compressed r \<Rightarrow> c < length ctx \<and> r = (1 / 2) / of_nat k
         | CompressionFailed r \<Rightarrow> c < length ctx \<and> r = (1 / 2) / of_nat k \<and> fitted = take c ctx"
  using assms
  by (auto simp: fitContext_def Let_def split: if_splits option.splits prod.splits)

lemma reportOutcome_Cons:
  assumes "later \<noteq> []"
  shows "reportOutcome (t # later) = reportOutcome later"
proof -
  have "last (t # later) = last later"
    using assms by simp
  then show ?thesis
    unfolding reportOutcome_def by (simp only:)
qed

lemma reportLoop_ladder:
  assumes "1 \<le> k" and "k \<le> 3"
    and "reportLoop a topic k c ctx = Some ((r, ts), a')"
  shows "retryLadder k c ctx ts \<and> r = reportOutcome ts"
  using assms
proof (induction a topic k c ctx arbitrary: r ts a' rule: reportLoop.induct)
  case (1 a topic attempt c ctx)
  from "1.prems" obtain how fitted a1 where fit: "fitContext a attempt c ctx = Some ((how, fitted), a1)"
    by (subst (asm) reportLoop.simps) (auto simp: maxRetries_def split: option.splits)
  obtain resp a2 where chat: "Chat a1 (reportMessages (config a1) topic fitted) = (resp, a2)"
    by (cases "Chat a1 (reportMessages (config a1) topic fitted)")
  define this where "this = \<lparr>number = attempt, limit = c, contextBefore = ctx, compression = how,
                          promptContext = fitted, response = resp\<rparr>"
  note hf = fitContext_cases [OF fit]
  have k3: "attempt \<le> 3" using "1.prems"(2) .
  show ?case
  proof (cases resp)
    case (Inr answer)
    with "1.prems" fit chat have "r = Inr (stripThinkTags answer)" "ts = [this]"
      by (subst (asm) reportLoop.simps; simp add: maxRetries_def this_def)+
    with hf k3 Inr show ?thesis
      by (auto simp: reportOutcome_def this_def split: compression.splits)
  next
    case (Inl err)
    show ?thesis
    proof (cases "attempt < 3 \<and> budgetRelated err")
      case False
      with "1.prems" fit chat Inl
      have "r = Inl (''report generation failed after '' @ showNat attempt @ '' attempts: '' @ err)"
        "ts = [this]"
        by (subst (asm) reportLoop.simps; auto simp: maxRetries_def this_def)+
      with hf k3 Inl False show ?thesis
        by (auto simp: reportOutcome_def this_def split: compression.splits)
    next
      case True
      with "1.prems" fit chat Inl obtain later where
        rec: "reportLoop a2 topic (attempt + 1) (c div 2) fitted = Some ((r, later), a')"
        and ts: "ts = this # later"
        by (subst (asm) reportLoop.simps) (auto simp: maxRetries_def this_def)
      have "retryLadder (attempt + 1) (c div 2) fitted later \<and> r = reportOutcome later"
        using "1.IH" [OF _ fit refl refl chat [symmetric] refl refl Inl _ _ _ rec] True "1.prems"(1,2)
        by (simp add: maxRetries_def)
      moreover from this have ne: "later \<noteq> []" by (cases later) auto
      ultimately show ?thesis
        using hf k3 Inl True ts reportOutcome_Cons [OF ne, of this]
        by (auto simp: this_def split: compression.splits)
    qed
  qed
qed

lemma retryLadder_each:
  assumes "retryLadder k c ctx ts" and "t \<in> set ts"
  shows "k \<le> number t \<and> number t \<le> 3 \<and> limit t = c div 2 ^ (number t - k)
         \<and> (case compression t of
               NotNeeded \<Rightarrow>
                 length (contextBefore t) \<le> limit t \<and> promptContext t = contextBefore t
             | Compressed r \<Rightarrow>
                 limit t < length (contextBefore t) \<and> r = (1 / 2) / of_nat (number t)
             | CompressionFailed r \<Rightarrow>
                 limit t < length (contextBefore t) \<and> r = (1 / 2) / of_nat (number t)
                 \<and> promptContext t = take (limit t) (contextBefore t))"
  using assms
proof (induction ts arbitrary: k c ctx)
  case Nil
  then show ?case by simp
next
  case (Cons x ts)
  show ?case
  proof (cases "t = x")
    case True
    with Cons.prems(1) show ?thesis
      by (auto split: compression.splits)
  next
    case False
    with Cons.prems have in_ts: "t \<in> set ts" and "ts \<noteq> []"
      by auto
    with Cons.prems(1) have rec: "retryLadder (k + 1) (c div 2) (promptContext x) ts"
      by simp
    from Cons.IH [OF rec in_ts]
    have ih: "k + 1 \<le> number t" "number t \<le> 3"
      "limit t = c div 2 div 2 ^ (number t - (k + 1))"
      "(case compression t of
               NotNeeded \<Rightarrow>
                 length (contextBefore t) \<le> limit t \<and> promptContext t = contextBefore t
             | Compressed r \<Rightarrow>
                 limit t < length (contextBefore t) \<and> r = (1 / 2) / of_nat (number t)
             | CompressionFailed r \<Rightarrow>
                 limit t < length (contextBefore t) \<and> r = (1 / 2) / of_nat (number t)
                 \<and> promptContext t = take (limit t) (contextBefore t))"
      by simp_all
    have "number t - k = Suc (number t - (k + 1))"
      using ih(1) by arith
    then have "c div 2 ^ (number t - k) = c div 2 div 2 ^ (number t - (k + 1))"
      by (simp add: div_mult2_eq)
    with ih show ?thesis by simp
  qed
qed

lemma retryLadder_length:
  "retryLadder k c ctx ts \<Longrightarrow> ts \<noteq> [] \<and> length ts + k \<le> 4"
proof (induction ts arbitrary: k c ctx)
  case Nil
  then show ?case by simp
next
  case (Cons x ts)
  show ?case
  proof (cases "ts = []")
    case True
    with Cons.prems show ?thesis by simp
  next
    case False
    with Cons.prems have "retryLadder (k + 1) (c div 2) (promptContext x) ts"
      by simp
    from Cons.IH [OF this] show ?thesis by simp
  qed
qed

lemma retryLadder_consecutive:
  "retryLadder k c ctx ts \<Longrightarrow> Suc i < length ts \<Longrightarrow>
   (case response (ts ! i) of Inl err \<Rightarrow> budgetRelated err | Inr resp \<Rightarrow> False)
   \<and> number (ts ! Suc i) = Suc (number (ts ! i))
   \<and> limit (ts ! Suc i) = limit (ts ! i) div 2
   \<and> contextBefore (ts ! Suc i) = promptContext (ts ! i)"
proof (induction ts arbitrary: k c ctx i)
  case Nil
  then show ?case by simp
next
  case (Cons x ts)
  from Cons.prems have ne: "ts \<noteq> []" by auto
  with Cons.prems(1) have rec: "retryLadder (k + 1) (c div 2) (promptContext x) ts"
    and x: "number x = k" "limit x = c"
      "case response x of Inl err \<Rightarrow> budgetRelated err | Inr resp \<Rightarrow> False"
    by simp_all
  show ?case
  proof (cases i)
    case 0
    from ne obtain y ys where ts: "ts = y # ys" by (cases ts) auto
    with rec have "number y = k + 1" "limit y = c div 2" "contextBefore y = promptContext x"
      by simp_all
    with 0 x ts show ?thesis by simp
  next
    case (Suc j)
    with Cons.prems(2) have "Suc j < length ts" by simp
    from Cons.IH [OF rec this] Suc show ?thesis by simp
  qed
qed

lemma retryLadder_last:
  "retryLadder k c ctx ts \<Longrightarrow>
   (case response (last ts) of
      Inl err \<Rightarrow> number (last ts) = 3 \<or> \<not> budgetRelated err
    | Inr resp \<Rightarrow> True)"
proof (induction ts arbitrary: k c ctx)
  case Nil
  then show ?case by simp
next
  case (Cons x ts)
  show ?case
  proof (cases "ts = []")
    case True
    with Cons.prems show ?thesis by (auto split: sum.splits)
  next
    case False
    with Cons.prems have "retryLadder (k + 1) (c div 2) (promptContext x) ts"
      by simp
    from Cons.IH [OF this]
    have ih: "case response (last ts) of
      Inl err \<Rightarrow> number (last ts) = 3 \<or> \<not> budgetRelated err
    | Inr resp \<Rightarrow> True" .
    have "last (x # ts) = last ts"
      using False by simp
    then show ?thesis
      using ih by (simp only:)
  qed
qed

lemma writeReportAttempts_ladder:
  assumes "map_option fst (writeReportAttempts a topic context) = Some (r, attempts)"
  shows "retryLadder 1 (maxContextChars (config a) div 2) context attempts"
    and "r = reportOutcome attempts"
proof -
  from assms obtain a' where
    "reportLoop a topic 1 (maxContextChars (config a) div 2) context = Some ((r, attempts), a')"
    by (auto simp: writeReportAttempts_def Let_def)
  from reportLoop_ladder [OF _ _ this]
  show "retryLadder 1 (maxContextChars (config a) div 2) context attempts"
    and "r = reportOutcome attempts"
    by simp_all
qed

lemma writeReport_attempts:
  "map_option fst (writeReport a topic context)
     = map_option (fst \<circ> fst) (writeReportAttempts a topic context)"
  by (cases "writeReportAttempts a topic context") (auto simp: writeReport_def)

text \<open>
  C5. The retry ladder of \<^verbatim>\<open>writeReport\<close>. In every run that returns, between one
  and three attempts are made, numbered from 1, the first with the ceiling at half the
  character budget and the given context. An attempt compresses exactly when its context
  exceeds its ceiling, with target ratio \<open>1/2\<close>, \<open>1/4\<close>, \<open>1/6\<close> on attempt 1, 2, 3;
  when the compression returns an error, the prompt gets the context cut to the ceiling.
  A further attempt follows only a generation error that mentions \<open>context\<close> or
  \<open>token\<close>, with half the ceiling and the context of the prompt just tried. A
  generation error on the third attempt, or one that is not budget-related, ends the run
  with the terminal error.
\<close>

theorem C5_report_retry_ladder:
  assumes "map_option fst (writeReportAttempts a topic context) = Some (r, attempts)"
  shows "map_option fst (writeReport a topic context) = Some r
     \<and> 1 \<le> length attempts \<and> length attempts \<le> 3
     \<and> number (attempts ! 0) = 1
     \<and> limit (attempts ! 0) = maxContextChars (config a) div 2
     \<and> contextBefore (attempts ! 0) = context
     \<and> (\<forall>t \<in> set attempts.
           (case compression t of
              NotNeeded \<Rightarrow>
                length (contextBefore t) \<le> limit t \<and> promptContext t = contextBefore t
            | Compressed ratio \<Rightarrow>
                limit t < length (contextBefore t)
                \<and> ((number t, ratio) \<in> {(1, 1 / 2), (2, 1 / 4), (3, 1 / 6)})
            | CompressionFailed ratio \<Rightarrow>
                limit t < length (contextBefore t)
                \<and> ((number t, ratio) \<in> {(1, 1 / 2), (2, 1 / 4), (3, 1 / 6)})
                \<and> promptContext t = take (limit t) (contextBefore t)))
     \<and> (\<forall>i. Suc i < length attempts \<longrightarrow>
           (case response (attempts ! i) of Inl err \<Rightarrow> budgetRelated err | Inr resp \<Rightarrow> False)
           \<and> number (attempts ! Suc i) = Suc (number (attempts ! i))
           \<and> limit (attempts ! Suc i) = limit (attempts ! i) div 2
           \<and> contextBefore (attempts ! Suc i) = promptContext (attempts ! i))
     \<and> (case response (last attempts) of
           Inl err \<Rightarrow>
             (number (last attempts) = 3 \<or> \<not> budgetRelated err)
             \<and> r = Inl (''report generation failed after ''
                        @ showNat (number (last attempts)) @ '' attempts: '' @ err)
         | Inr resp \<Rightarrow> r = Inr (stripThinkTags resp))"
proof -
  note lad = writeReportAttempts_ladder [OF assms]
  from retryLadder_length [OF lad(1)] have len: "attempts \<noteq> []" "length attempts \<le> 3"
    by simp_all
  then obtain t0 rest where ts: "attempts = t0 # rest" by (cases attempts) auto
  have first: "number (attempts ! 0) = 1
     \<and> limit (attempts ! 0) = maxContextChars (config a) div 2
     \<and> contextBefore (attempts ! 0) = context"
    using lad(1) ts by simp
  have each: "\<forall>t \<in> set attempts.
           (case compression t of
              NotNeeded \<Rightarrow>
                length (contextBefore t) \<le> limit t \<and> promptContext t = contextBefore t
            | Compressed ratio \<Rightarrow>
                limit t < length (contextBefore t)
                \<and> ((number t, ratio) \<in> {(1, 1 / 2), (2, 1 / 4), (3, 1 / 6)})
            | CompressionFailed ratio \<Rightarrow>
                limit t < length (contextBefore t)
                \<and> ((number t, ratio) \<in> {(1, 1 / 2), (2, 1 / 4), (3, 1 / 6)})
                \<and> promptContext t = take (limit t) (contextBefore t))"
  proof
    fix t assume "t \<in> set attempts"
    from retryLadder_each [OF lad(1) this]
    have n: "1 \<le> number t" "number t \<le> 3"
      and c: "case compression t of
               NotNeeded \<Rightarrow>
                 length (contextBefore t) \<le> limit t \<and> promptContext t = contextBefore t
             | Compressed r \<Rightarrow>
                 limit t < length (contextBefore t) \<and> r = (1 / 2) / of_nat (number t)
             | CompressionFailed r \<Rightarrow>
                 limit t < length (contextBefore t) \<and> r = (1 / 2) / of_nat (number t)
                 \<and> promptContext t = take (limit t) (contextBefore t)"
      by simp_all
    from n have "number t = 1 \<or> number t = 2 \<or> number t = 3" by arith
    with c show "case compression t of
              NotNeeded \<Rightarrow>
                length (contextBefore t) \<le> limit t \<and> promptContext t = contextBefore t
            | Compressed ratio \<Rightarrow>
                limit t < length (contextBefore t)
                \<and> ((number t, ratio) \<in> {(1, 1 / 2), (2, 1 / 4), (3, 1 / 6)})
            | CompressionFailed ratio \<Rightarrow>
                limit t < length (contextBefore t)
                \<and> ((number t, ratio) \<in> {(1, 1 / 2), (2, 1 / 4), (3, 1 / 6)})
                \<and> promptContext t = take (limit t) (contextBefore t)"
      by (auto split: compression.splits)
  qed
  have cons: "\<forall>i. Suc i < length attempts \<longrightarrow>
           (case response (attempts ! i) of Inl err \<Rightarrow> budgetRelated err | Inr resp \<Rightarrow> False)
           \<and> number (attempts ! Suc i) = Suc (number (attempts ! i))
           \<and> limit (attempts ! Suc i) = limit (attempts ! i) div 2
           \<and> contextBefore (attempts ! Suc i) = promptContext (attempts ! i)"
    using retryLadder_consecutive [OF lad(1)] by blast
  have lastish: "case response (last attempts) of
           Inl err \<Rightarrow> number (last attempts) = 3 \<or> \<not> budgetRelated err
         | Inr resp \<Rightarrow> True"
    by (rule retryLadder_last [OF lad(1)])
  have out: "case response (last attempts) of
           Inl err \<Rightarrow>
             r = Inl (''report generation failed after ''
                        @ showNat (number (last attempts)) @ '' attempts: '' @ err)
         | Inr resp \<Rightarrow> r = Inr (stripThinkTags resp)"
    using lad(2) by (simp add: reportOutcome_def split: sum.splits)
  have final: "case response (last attempts) of
           Inl err \<Rightarrow>
             (number (last attempts) = 3 \<or> \<not> budgetRelated err)
             \<and> r = Inl (''report generation failed after ''
                        @ showNat (number (last attempts)) @ '' attempts: '' @ err)
         | Inr resp \<Rightarrow> r = Inr (stripThinkTags resp)"
    using lastish out by (simp split: sum.splits)
  have wr: "map_option fst (writeReport a topic context) = Some r"
    using assms by (cases "writeReportAttempts a topic context") (auto simp: writeReport_def)
  have "1 \<le> length attempts"
    using len(1) by (cases attempts) simp_all
  with wr len(2) first each cons final show ?thesis
    by blast
qed


end
